theory Spec2Isabelle
  imports Complex_Main
begin

section \<open>Whistle: the time-entry handlers of the punch clock\<close>

text \<open>
  A shallow embedding of the request handlers under \<^verbatim>\<open>api/time/\<close>:
  clock-in, clock-out, status (with the lazy auto-timeout) and heatmap.

  Conventions of the embedding.
  \<^item> An instant is the time value of a JavaScript \<^verbatim>\<open>Date\<close>: an integer number of
    milliseconds since 1970-01-01T00:00:00Z. A \<^verbatim>\<open>TIMESTAMP WITH TIME ZONE\<close> column holds
    such an instant.
  \<^item> JavaScript numbers that are not instants (hours, seconds) are rationals: the
    arithmetic of the handlers is carried out exactly, not in binary floating point.
  \<^item> Every reading of a clock (\<^verbatim>\<open>new Date()\<close> in the handler, \<^verbatim>\<open>NOW()\<close> in the database) is
    an argument of the handler, one argument per reading.
  \<^item> A handler takes the table and returns the response together with the table it
    leaves behind. One request runs from start to end without interleaving, and every
    SQL statement succeeds unless the schema forbids its values.
  \<^item> The Node process and the database session both run in UTC (the hosting
    platform's setting): \<^verbatim>\<open>getFullYear\<close> and \<^verbatim>\<open>DATE(...)\<close> read UTC fields.
  \<^item> Instants are unbounded integers; the range of a \<^verbatim>\<open>Date\<close> (years up to 275760) is
    not imposed.
\<close>

subsection \<open>ECMAScript date arithmetic\<close>

text \<open>
  The day and year functions of ECMA-262 (section "Time Values and Time Range"),
  which \<^verbatim>\<open>new Date(...)\<close>, \<^verbatim>\<open>getFullYear\<close> and \<^verbatim>\<open>toISOString\<close> are defined by.
  Integer division on \<^typ>\<open>int\<close> rounds down, as \<^verbatim>\<open>floor\<close> does.
\<close>

definition msPerDay :: int where
  "msPerDay = 86400000"

definition msPerHour :: int where
  "msPerHour = 3600000"

definition Day :: "int \<Rightarrow> int" where
  "Day t = t div msPerDay"

definition DayFromYear :: "int \<Rightarrow> int" where
  "DayFromYear y =
     365 * (y - 1970) + (y - 1969) div 4 - (y - 1901) div 100 + (y - 1601) div 400"

definition TimeFromYear :: "int \<Rightarrow> int" where
  "TimeFromYear y = msPerDay * DayFromYear y"

definition DaysInYear :: "int \<Rightarrow> int" where
  "DaysInYear y =
     (if y mod 4 \<noteq> 0 then 365
      else if y mod 100 \<noteq> 0 then 366
      else if y mod 400 \<noteq> 0 then 365
      else 366)"

text \<open>
  ECMA-262 defines the year of a time value as the largest \<open>y\<close> with
  \<open>TimeFromYear y \<le> t\<close>. The executable form below starts from the mean year length
  (146097 days in 400 years) and corrects by at most one year; lemma
  \<open>YearFromDay_bounds\<close> shows that it is the year of the definition.
\<close>

definition YearFromDay :: "int \<Rightarrow> int" where
  "YearFromDay d =
     (let y = 1970 + (400 * d) div 146097
      in if d < DayFromYear y then y - 1
         else if DayFromYear (y + 1) \<le> d then y + 1
         else y)"

definition YearFromTime :: "int \<Rightarrow> int" where
  "YearFromTime t = YearFromDay (Day t)"

definition InLeapYear :: "int \<Rightarrow> bool" where
  "InLeapYear t = (DaysInYear (YearFromTime t) = 366)"

definition DayWithinYear :: "int \<Rightarrow> int" where
  "DayWithinYear t = Day t - DayFromYear (YearFromTime t)"

text \<open>The first day of each month (0 = January) within a year.\<close>

definition month_start :: "bool \<Rightarrow> int \<Rightarrow> int" where
  "month_start leap m =
     (if m \<le> 0 then 0
      else if m = 1 then 31
      else (if leap then 1 else 0) +
        (if m = 2 then 59 else if m = 3 then 90 else if m = 4 then 120
         else if m = 5 then 151 else if m = 6 then 181 else if m = 7 then 212
         else if m = 8 then 243 else if m = 9 then 273 else if m = 10 then 304
         else 334))"

definition month_of_day :: "bool \<Rightarrow> int \<Rightarrow> int" where
  "month_of_day leap d =
     (if d < month_start leap 1 then 0
      else if d < month_start leap 2 then 1
      else if d < month_start leap 3 then 2
      else if d < month_start leap 4 then 3
      else if d < month_start leap 5 then 4
      else if d < month_start leap 6 then 5
      else if d < month_start leap 7 then 6
      else if d < month_start leap 8 then 7
      else if d < month_start leap 9 then 8
      else if d < month_start leap 10 then 9
      else if d < month_start leap 11 then 10
      else 11)"

definition MonthFromTime :: "int \<Rightarrow> int" where
  "MonthFromTime t = month_of_day (InLeapYear t) (DayWithinYear t)"

definition DateFromTime :: "int \<Rightarrow> int" where
  "DateFromTime t =
     DayWithinYear t - month_start (InLeapYear t) (MonthFromTime t) + 1"

definition WeekDay :: "int \<Rightarrow> int" where
  "WeekDay t = (Day t + 4) mod 7"

definition HourFromTime :: "int \<Rightarrow> int" where
  "HourFromTime t = (t div msPerHour) mod 24"

text \<open>
  The instant an ISO string \<^verbatim>\<open>YYYY-MM-DDTHH:MM:SSZ\<close> denotes (months and days count
  from 1), as \<^verbatim>\<open>new Date(string)\<close> and the database read it.
\<close>

definition utc :: "int \<Rightarrow> int \<Rightarrow> int \<Rightarrow> int \<Rightarrow> int \<Rightarrow> int \<Rightarrow> int" where
  "utc y mo d h mi s =
     (DayFromYear y + month_start (DaysInYear y = 366) (mo - 1) + (d - 1)) * msPerDay
       + h * msPerHour + mi * 60000 + s * 1000"

text \<open>
  Decimal digits: \<open>dec n\<close> is \<^verbatim>\<open>String(n)\<close> for a natural number, and
  \<open>padStart n c s\<close> is \<^verbatim>\<open>s.padStart(n, c)\<close>.
\<close>

definition digit :: "nat \<Rightarrow> char" where
  "digit n = ''0123456789'' ! n"

fun dec :: "nat \<Rightarrow> string" where
  "dec n = (if n < 10 then [digit n] else dec (n div 10) @ [digit (n mod 10)])"

definition padStart :: "nat \<Rightarrow> char \<Rightarrow> string \<Rightarrow> string" where
  "padStart n c s = replicate (n - length s) c @ s"

text \<open>Reading a decimal string back (used in the proofs about dates).\<close>

definition digit_val :: "char \<Rightarrow> nat" where
  "digit_val c = of_char c - 48"

definition val :: "string \<Rightarrow> nat" where
  "val s = foldl (\<lambda>a c. a * 10 + digit_val c) 0 s"

text \<open>
  The date part of \<^verbatim>\<open>toISOString()\<close>, that is \<^verbatim>\<open>toISOString().split('T')[0]\<close>:
  \<^verbatim>\<open>YYYY-MM-DD\<close>, the year with four digits from 0 to 9999 and otherwise with a sign
  and six digits (ECMA-262, "Date Time String Format").
\<close>

definition year_string :: "int \<Rightarrow> string" where
  "year_string y =
     (if 0 \<le> y \<and> y \<le> 9999 then padStart 4 CHR ''0'' (dec (nat y))
      else (if y < 0 then ''-'' else ''+'') @ padStart 6 CHR ''0'' (dec (nat \<bar>y\<bar>)))"

definition two_digits :: "int \<Rightarrow> string" where
  "two_digits n = padStart 2 CHR ''0'' (dec (nat n))"

definition toISODate :: "int \<Rightarrow> string" where
  "toISODate t =
     year_string (YearFromTime t) @ ''-'' @ two_digits (MonthFromTime t + 1) @ ''-'' @
     two_digits (DateFromTime t)"

definition getFullYear :: "int \<Rightarrow> int" where
  "getFullYear t = YearFromTime t"

text \<open>\<^verbatim>\<open>Math.round(x * 100) / 100\<close>; \<^verbatim>\<open>Math.round\<close> is \<open>\<lfloor>x + 1/2\<rfloor>\<close>.\<close>

definition Math_round :: "rat \<Rightarrow> int" where
  "Math_round x = \<lfloor>x + 1 / 2\<rfloor>"

definition round2 :: "rat \<Rightarrow> rat" where
  "round2 x = of_int (Math_round (x * 100)) / 100"

subsection \<open>The table \<^verbatim>\<open>time_entries\<close>\<close>

text \<open>
  One row per work session (\<^verbatim>\<open>db/schema.sql\<close>). \<open>end_time = None\<close> is SQL's NULL: the
  session is open. The column \<^verbatim>\<open>start_timezone\<close> is \<^verbatim>\<open>VARCHAR(100) NOT NULL\<close>; \<open>entry_id\<close>
  is the \<^verbatim>\<open>SERIAL PRIMARY KEY\<close>, drawn from the sequence \<open>next_id\<close>.
\<close>

record time_entry =
  entry_id :: nat
  user_id :: nat
  start_time :: int
  end_time :: "int option"
  start_timezone :: string

record database =
  time_entries :: "time_entry list"
  next_id :: nat

text \<open>\<^verbatim>\<open>SELECT ... WHERE user_id = $1 AND end_time IS NULL\<close>, rows in table order.\<close>

definition select_open :: "nat \<Rightarrow> database \<Rightarrow> time_entry list" where
  "select_open uid db =
     filter (\<lambda>e. user_id e = uid \<and> end_time e = None) (time_entries db)"

text \<open>
  \<^verbatim>\<open>INSERT INTO time_entries (user_id, start_time, start_timezone) VALUES ($1, NOW(), $2)
  RETURNING ...\<close>. The statement fails (the driver throws) when the timezone does not fit
  the column.
\<close>

definition insert_entry ::
  "nat \<Rightarrow> int \<Rightarrow> string \<Rightarrow> database \<Rightarrow> (time_entry \<times> database) option" where
  "insert_entry uid now timezone db =
     (if length timezone > 100 then None
      else
        let entry = \<lparr>entry_id = next_id db, user_id = uid, start_time = now,
                       end_time = None, start_timezone = timezone\<rparr>
        in Some (entry, \<lparr>time_entries = time_entries db @ [entry],
                          next_id = Suc (next_id db)\<rparr>))"

text \<open>
  \<^verbatim>\<open>UPDATE time_entries SET end_time = $1 WHERE id = $2 RETURNING ...\<close>: the rows it
  returns and the table it leaves.
\<close>

definition update_end_time ::
  "int \<Rightarrow> nat \<Rightarrow> database \<Rightarrow> time_entry list \<times> database" where
  "update_end_time t i db =
     (let rows = map (\<lambda>e. if entry_id e = i then e\<lparr>end_time := Some t\<rparr> else e)
                   (time_entries db)
      in (filter (\<lambda>e. entry_id e = i) rows, db\<lparr>time_entries := rows\<rparr>))"

text \<open>
  \<^verbatim>\<open>EXTRACT(EPOCH FROM (end_time - start_time)) / 3600\<close>: NULL for an open row.
  \<^verbatim>\<open>SUM\<close> skips NULLs and is NULL when nothing is left; \<^verbatim>\<open>COALESCE\<close> replaces NULL.
\<close>

definition epoch_hours :: "time_entry \<Rightarrow> rat option" where
  "epoch_hours e =
     (case end_time e of
        None \<Rightarrow> None
      | Some t \<Rightarrow> Some (of_int (t - start_time e) / 1000 / 3600))"

definition sql_sum :: "rat option list \<Rightarrow> rat option" where
  "sql_sum vs =
     (let xs = List.map_filter (\<lambda>v. v) vs
      in if xs = [] then None else Some (sum_list xs))"

definition coalesce :: "'a option \<Rightarrow> 'a \<Rightarrow> 'a" where
  "coalesce v d = (case v of None \<Rightarrow> d | Some x \<Rightarrow> x)"

text \<open>
  The \<^verbatim>\<open>WHERE\<close> clause shared by the year total and the heatmap:
  \<^verbatim>\<open>user_id = $1 AND end_time IS NOT NULL AND start_time >= $2 AND start_time < $3\<close>.
\<close>

definition completed_in :: "nat \<Rightarrow> int \<Rightarrow> int \<Rightarrow> time_entry \<Rightarrow> bool" where
  "completed_in uid yearStart yearEnd e \<longleftrightarrow>
     user_id e = uid \<and> end_time e \<noteq> None \<and> yearStart \<le> start_time e \<and> start_time e < yearEnd"

text \<open>The year total of the status endpoint (one row, one column).\<close>

definition year_total_query :: "nat \<Rightarrow> int \<Rightarrow> int \<Rightarrow> database \<Rightarrow> rat" where
  "year_total_query uid yearStart yearEnd db =
     coalesce
       (sql_sum (map epoch_hours (filter (completed_in uid yearStart yearEnd) (time_entries db))))
       0"

text \<open>
  The heatmap query: \<^verbatim>\<open>GROUP BY DATE(start_time) ORDER BY work_date\<close>. A \<^verbatim>\<open>DATE\<close> is a
  day number, \<open>Day\<close> of the instant. One row per date that occurs, in ascending order.
\<close>

definition heatmap_query :: "nat \<Rightarrow> int \<Rightarrow> int \<Rightarrow> database \<Rightarrow> (int \<times> rat option) list" where
  "heatmap_query uid yearStart yearEnd db =
     (let sel = filter (completed_in uid yearStart yearEnd) (time_entries db);
          dates = sort (remdups (map (\<lambda>e. Day (start_time e)) sel))
      in map (\<lambda>d. (d, sql_sum (map epoch_hours (filter (\<lambda>e. Day (start_time e) = d) sel))))
           dates)"

subsection \<open>Requests and responses\<close>

text \<open>
  A request as the handlers read it: the HTTP method, the user that
  \<^verbatim>\<open>getCurrentUser(request)\<close> resolves the session cookie to (\<open>None\<close> is \<^verbatim>\<open>null\<close>), and
  the parsed JSON body (\<open>None\<close> when \<^verbatim>\<open>request.body\<close> is undefined).
\<close>

datatype jsval = JUndefined | JNull | JBool bool | JNum int | JStr string

record request =
  req_method :: string
  current_user :: "nat option"
  req_body :: "(string \<times> jsval) list option"

definition field :: "(string \<times> jsval) list \<Rightarrow> string \<Rightarrow> jsval" where
  "field obj k = (case map_of obj k of None \<Rightarrow> JUndefined | Some v \<Rightarrow> v)"

fun truthy :: "jsval \<Rightarrow> bool" where
  "truthy JUndefined = False"
| "truthy JNull = False"
| "truthy (JBool b) = b"
| "truthy (JNum n) = (n \<noteq> 0)"
| "truthy (JStr s) = (s \<noteq> [])"

fun typeof :: "jsval \<Rightarrow> string" where
  "typeof JUndefined = ''undefined''"
| "typeof JNull = ''object''"
| "typeof (JBool b) = ''boolean''"
| "typeof (JNum n) = ''number''"
| "typeof (JStr s) = ''string''"

text \<open>
  \<^verbatim>\<open>sendJson(response, status, data)\<close> and \<^verbatim>\<open>sendError(response, status, message)\<close> of
  \<^verbatim>\<open>api/_helpers.js\<close>. The constant \<^verbatim>\<open>success: true\<close> of the bodies is left out.
\<close>

datatype 'a response = sendJson nat 'a | sendError nat string

abbreviation internal_error :: "'a response" where
  "internal_error \<equiv> sendError 500 ''Something went wrong. Please try again.''"

record clock_in_entry =
  ci_id :: nat
  ci_start_time :: int
  ci_timezone :: string

record clock_out_entry =
  co_id :: nat
  co_start_time :: int
  co_end_time :: "int option"
  co_duration_hours :: rat

record session =
  cs_id :: nat
  cs_start_time :: int
  cs_timezone :: string
  cs_elapsed_seconds :: int

record status_body =
  is_working :: bool
  current_session :: "session option"
  year_total_hours :: rat

record heatmap_body =
  hm_year :: int
  hm_days :: "string \<rightharpoonup> rat option"

subsection \<open>The weekend restriction\<close>

text \<open>
  \<^verbatim>\<open>new Intl.DateTimeFormat('en-US', {timeZone, weekday: 'short', hour: 'numeric',
  hour12: false}).formatToParts(now)\<close> belongs to the platform. It is an argument of
  the handlers: a function from the zone name and the instant to the value of the
  \<^verbatim>\<open>weekday\<close> part and the number \<^verbatim>\<open>parseInt\<close> reads from the \<^verbatim>\<open>hour\<close> part, or \<open>None\<close> when
  the constructor throws (a zone name the platform does not know). Which number an
  engine prints for the hour after midnight under \<^verbatim>\<open>hour12: false\<close> (0, or 24 in the
  \<^verbatim>\<open>h24\<close> cycle) is the platform's matter; the handler compares what it is given.
\<close>

type_synonym formatter = "string \<Rightarrow> int \<Rightarrow> (string \<times> int) option"

definition checkWeekendRestriction :: "formatter \<Rightarrow> string \<Rightarrow> int \<Rightarrow> string option" where
  "checkWeekendRestriction fmt timezone now =
     (case fmt timezone now of
        None \<Rightarrow> None
      | Some (weekday, hour) \<Rightarrow>
          if weekday = ''Sun'' then Some ''Clock in/out is not available on Sundays.''
          else if weekday = ''Sat'' \<and> hour \<ge> 18
            then Some ''Clock in/out is not available after 6pm on Saturdays.''
          else None)"

text \<open>
  A platform for the examples: a finite table of zone names with a fixed offset from
  UTC in milliseconds. The weekday and the hour (0 to 23) are those of ECMA-262 at the
  shifted instant.
\<close>

definition weekday_short :: "int \<Rightarrow> string" where
  "weekday_short d =
     (if d = 0 then ''Sun'' else if d = 1 then ''Mon'' else if d = 2 then ''Tue''
      else if d = 3 then ''Wed'' else if d = 4 then ''Thu'' else if d = 5 then ''Fri''
      else ''Sat'')"

definition fixed_zones :: "(string \<times> int) list \<Rightarrow> formatter" where
  "fixed_zones zones timezone now =
     (case map_of zones timezone of
        None \<Rightarrow> None
      | Some offset \<Rightarrow>
          Some (weekday_short (WeekDay (now + offset)), HourFromTime (now + offset)))"

subsection \<open>The handlers\<close>

definition MAX_SHIFT_HOURS :: int where
  "MAX_SHIFT_HOURS = 15"

text \<open>
  \<^verbatim>\<open>POST /api/time/clock-in\<close> (\<^verbatim>\<open>api/time/clock-in.js\<close>, the revision with the weekend
  restriction; the file also holds the earlier one, the same handler without step
  2.5). \<open>t_check\<close> is the clock reading inside \<^verbatim>\<open>checkWeekendRestriction\<close>,
  \<open>t_now\<close> the database's \<^verbatim>\<open>NOW()\<close>. Destructuring an undefined body throws, and so
  does a refused \<^verbatim>\<open>INSERT\<close>: both end in the \<^verbatim>\<open>catch\<close> block.
\<close>

definition clock_in ::
  "formatter \<Rightarrow> request \<Rightarrow> database \<Rightarrow> int \<Rightarrow> int \<Rightarrow> clock_in_entry response \<times> database" where
  "clock_in fmt request db t_check t_now =
     (if req_method request \<noteq> ''POST'' then (sendError 405 ''Method not allowed. Use POST.'', db)
      else case current_user request of
        None \<Rightarrow> (sendError 401 ''You must be logged in to clock in.'', db)
      | Some uid \<Rightarrow>
         (case req_body request of
            None \<Rightarrow> (internal_error, db)
          | Some body \<Rightarrow>
             (let timezone = field body ''timezone'' in
              if \<not> truthy timezone \<or> typeof timezone \<noteq> ''string''
              then (sendError 400 ''Timezone is required.'', db)
              else case timezone of
                JStr tz \<Rightarrow>
                  (case checkWeekendRestriction fmt tz t_check of
                     Some restrictionError \<Rightarrow> (sendError 400 restrictionError, db)
                   | None \<Rightarrow>
                       if select_open uid db \<noteq> []
                       then (sendError 400 ''You are already clocked in.'', db)
                       else (case insert_entry uid t_now tz db of
                               None \<Rightarrow> (internal_error, db)
                             | Some (entry, db') \<Rightarrow>
                                 (sendJson 201
                                    \<lparr>ci_id = entry_id entry,
                                     ci_start_time = start_time entry,
                                     ci_timezone = start_timezone entry\<rparr>, db')))
              | _ \<Rightarrow> (sendError 400 ''Timezone is required.'', db))))"

text \<open>
  \<^verbatim>\<open>POST /api/time/clock-out\<close>, the revision with the weekend restriction. \<open>t_check\<close> is
  the clock reading inside \<^verbatim>\<open>checkWeekendRestriction\<close>, \<open>now\<close> the reading of step 3.
  \<^verbatim>\<open>new Date(x)\<close> of a NULL column is the epoch; reading \<^verbatim>\<open>result.rows[0]\<close> of an empty
  result throws.
\<close>

definition Date_of :: "int option \<Rightarrow> int" where
  "Date_of v = (case v of None \<Rightarrow> 0 | Some t \<Rightarrow> t)"

definition close_entry ::
  "time_entry \<Rightarrow> database \<Rightarrow> int \<Rightarrow> clock_out_entry response \<times> database" where
  "close_entry entry db now =
     (let startTime = start_time entry;
          hoursWorked = (of_int (now - startTime) :: rat) / (1000 * 60 * 60);
          endTime = (if hoursWorked > of_int MAX_SHIFT_HOURS
                     then startTime + MAX_SHIFT_HOURS * 60 * 60 * 1000
                     else now);
          (rows, db') = update_end_time endTime (entry_id entry) db
      in case rows of
           [] \<Rightarrow> (internal_error, db')
         | updatedEntry # _ \<Rightarrow>
             (let start = start_time updatedEntry;
                  end = Date_of (end_time updatedEntry);
                  durationHours = (of_int (end - start) :: rat) / (1000 * 60 * 60)
              in (sendJson 200
                    \<lparr>co_id = entry_id updatedEntry,
                     co_start_time = start_time updatedEntry,
                     co_end_time = end_time updatedEntry,
                     co_duration_hours = round2 durationHours\<rparr>, db')))"

text \<open>\<^verbatim>\<open>request.body && request.body.auto === true\<close>\<close>

definition isAuto :: "request \<Rightarrow> bool" where
  "isAuto request =
     (case req_body request of
        None \<Rightarrow> False
      | Some body \<Rightarrow> field body ''auto'' = JBool True)"

definition clock_out ::
  "formatter \<Rightarrow> request \<Rightarrow> database \<Rightarrow> int \<Rightarrow> int \<Rightarrow> clock_out_entry response \<times> database" where
  "clock_out fmt request db t_check now =
     (if req_method request \<noteq> ''POST'' then (sendError 405 ''Method not allowed. Use POST.'', db)
      else case current_user request of
        None \<Rightarrow> (sendError 401 ''You must be logged in to clock out.'', db)
      | Some uid \<Rightarrow>
         (case select_open uid db of
            [] \<Rightarrow> (sendError 400 ''You are not currently clocked in.'', db)
          | entry # _ \<Rightarrow>
             (let restrictionError =
                    (if \<not> isAuto request \<and> start_timezone entry \<noteq> []
                     then checkWeekendRestriction fmt (start_timezone entry) t_check
                     else None)
              in case restrictionError of
                   Some msg \<Rightarrow> (sendError 400 msg, db)
                 | None \<Rightarrow> close_entry entry db now)))"

text \<open>
  The earlier revision of the clock-out handler, kept in the repository beside the
  one above: the same steps without the weekend restriction (it never reads the body).
\<close>

definition clock_out_unrestricted ::
  "request \<Rightarrow> database \<Rightarrow> int \<Rightarrow> clock_out_entry response \<times> database" where
  "clock_out_unrestricted request db now =
     (if req_method request \<noteq> ''POST'' then (sendError 405 ''Method not allowed. Use POST.'', db)
      else case current_user request of
        None \<Rightarrow> (sendError 401 ''You must be logged in to clock out.'', db)
      | Some uid \<Rightarrow>
         (case select_open uid db of
            [] \<Rightarrow> (sendError 400 ''You are not currently clocked in.'', db)
          | entry # _ \<Rightarrow> close_entry entry db now))"

text \<open>
  \<^verbatim>\<open>GET /api/time/status\<close>. Step 2 is the auto-timeout, the only write of a read
  endpoint; \<open>now\<close> is its clock reading and \<open>t_year\<close> the reading of step 3.
\<close>

definition auto_timeout ::
  "nat \<Rightarrow> database \<Rightarrow> int \<Rightarrow> (bool \<times> session option) \<times> database" where
  "auto_timeout uid db now =
     (case select_open uid db of
        [] \<Rightarrow> ((False, None), db)
      | entry # _ \<Rightarrow>
          (let startTime = start_time entry;
               elapsedSeconds = (of_int (now - startTime) :: rat) / 1000;
               elapsedHours = elapsedSeconds / 3600
           in if elapsedHours \<ge> of_int MAX_SHIFT_HOURS
              then (let endTime = startTime + MAX_SHIFT_HOURS * 60 * 60 * 1000
                    in ((False, None), snd (update_end_time endTime (entry_id entry) db)))
              else ((True,
                     Some \<lparr>cs_id = entry_id entry,
                           cs_start_time = start_time entry,
                           cs_timezone = start_timezone entry,
                           cs_elapsed_seconds = \<lfloor>elapsedSeconds\<rfloor>\<rparr>), db)))"

definition status ::
  "request \<Rightarrow> database \<Rightarrow> int \<Rightarrow> int \<Rightarrow> status_body response \<times> database" where
  "status request db now t_year =
     (if req_method request \<noteq> ''GET'' then (sendError 405 ''Method not allowed. Use GET.'', db)
      else case current_user request of
        None \<Rightarrow> (sendError 401 ''You must be logged in to view status.'', db)
      | Some uid \<Rightarrow>
         (let ((isWorking, currentSession), db') = auto_timeout uid db now;
              currentYear = getFullYear t_year;
              yearStart = TimeFromYear currentYear;
              yearEnd = TimeFromYear (currentYear + 1);
              yearTotalHours = year_total_query uid yearStart yearEnd db'
          in (sendJson 200
                \<lparr>is_working = isWorking,
                 current_session = currentSession,
                 year_total_hours = round2 yearTotalHours\<rparr>, db')))"

text \<open>
  \<^verbatim>\<open>GET /api/time/heatmap\<close>. It writes nothing. The driver turns a \<^verbatim>\<open>DATE\<close> into the
  \<^verbatim>\<open>Date\<close> of its midnight; \<^verbatim>\<open>parseFloat\<close> of a NULL total is NaN, here \<open>None\<close>.
\<close>

definition format_days :: "(int \<times> rat option) list \<Rightarrow> (string \<rightharpoonup> rat option)" where
  "format_days rows =
     fold (\<lambda>(work_date, total_hours) days.
             days(toISODate (work_date * msPerDay) \<mapsto> map_option round2 total_hours))
       rows Map.empty"

definition heatmap :: "request \<Rightarrow> database \<Rightarrow> int \<Rightarrow> heatmap_body response" where
  "heatmap request db now =
     (if req_method request \<noteq> ''GET'' then sendError 405 ''Method not allowed. Use GET.''
      else case current_user request of
        None \<Rightarrow> sendError 401 ''You must be logged in to view heatmap.''
      | Some uid \<Rightarrow>
         (let currentYear = getFullYear now;
              yearStart = TimeFromYear currentYear;
              yearEnd = TimeFromYear (currentYear + 1);
              rows = heatmap_query uid yearStart yearEnd db
          in sendJson 200 \<lparr>hm_year = currentYear, hm_days = format_days rows\<rparr>))"

subsection \<open>The cap and the duration in the specification's words\<close>

text \<open>
  The specification states the cap on instants: the maximum shift in milliseconds,
  and the end time "\<open>start + 15 hours\<close> if \<open>now - start\<close> exceeds 15 hours, else \<open>now\<close>".
  The handlers compute on hours; the theorems relate the two.
\<close>

definition max_shift_ms :: int where
  "max_shift_ms = MAX_SHIFT_HOURS * 60 * 60 * 1000"

definition capped_end :: "int \<Rightarrow> int \<Rightarrow> int" where
  "capped_end start now = (if now - start > max_shift_ms then start + max_shift_ms else now)"


subsection \<open>Invariants of the table\<close>

text \<open>
  \<open>primary_key\<close>: the ids are distinct and were drawn from the sequence.
  \<open>one_open\<close>: no user has two open rows (the open rows have distinct users).
\<close>

definition primary_key :: "database \<Rightarrow> bool" where
  "primary_key db \<longleftrightarrow>
     distinct (map entry_id (time_entries db)) \<and>
     list_all (\<lambda>e. entry_id e < next_id db) (time_entries db)"

definition one_open :: "database \<Rightarrow> bool" where
  "one_open db \<longleftrightarrow>
     distinct (map user_id (filter (\<lambda>e. end_time e = None) (time_entries db)))"

text \<open>\<open>within_cap\<close>: no closed row lasts longer than the maximum shift.\<close>

definition within_cap :: "database \<Rightarrow> bool" where
  "within_cap db \<longleftrightarrow>
     list_all (\<lambda>e. case end_time e of None \<Rightarrow> True | Some t \<Rightarrow> t - start_time e \<le> max_shift_ms)
       (time_entries db)"

subsection \<open>Example data\<close>

text \<open>
  The zones of the examples, with their offsets of June 2024 (daylight saving time in
  America): a stand-in for the platform's zone database.
\<close>

definition june_2024 :: formatter where
  "june_2024 =
     fixed_zones
       [(''UTC'', 0),
        (''America/New_York'', - 4 * msPerHour),
        (''America/Los_Angeles'', - 7 * msPerHour)]"

text \<open>A platform on which every zone is known and it is always Sunday noon.\<close>

definition always_sunday :: formatter where
  "always_sunday timezone now = Some (''Sun'', 12)"

definition post :: "nat \<Rightarrow> (string \<times> jsval) list \<Rightarrow> request" where
  "post uid body = \<lparr>req_method = ''POST'', current_user = Some uid, req_body = Some body\<rparr>"

definition get :: "nat \<Rightarrow> request" where
  "get uid = \<lparr>req_method = ''GET'', current_user = Some uid, req_body = None\<rparr>"

text \<open>A table whose only row is the open entry of user 7, clocked in at \<open>start\<close>.\<close>

definition shift_since :: "int \<Rightarrow> string \<Rightarrow> database" where
  "shift_since start zone =
     \<lparr>time_entries =
        [\<lparr>entry_id = 1, user_id = 7, start_time = start,
          end_time = None, start_timezone = zone\<rparr>],
      next_id = 2\<rparr>"

text \<open>The clock-in of the claims' examples: 2024-06-01T08:00:00Z, a Saturday.\<close>

definition saturday_shift :: "string \<Rightarrow> database" where
  "saturday_shift zone = shift_since (utc 2024 6 1 8 0 0) zone"

text \<open>
  A week of June 2024. User 7 worked 3 h and 1.25 h on 3 June, 3 h across the midnight
  after 4 June, one hour on the last day of 2023, and is clocked in since 6 June;
  user 8 worked one hour on 3 June.
\<close>

definition closed_entry :: "nat \<Rightarrow> nat \<Rightarrow> int \<Rightarrow> int \<Rightarrow> time_entry" where
  "closed_entry i uid s t =
     \<lparr>entry_id = i, user_id = uid, start_time = s, end_time = Some t, start_timezone = ''UTC''\<rparr>"

definition june_closed :: "time_entry list" where
  "june_closed =
     [closed_entry 1 7 (utc 2024 6 3 9 0 0) (utc 2024 6 3 12 0 0),
      closed_entry 2 7 (utc 2024 6 3 13 0 0) (utc 2024 6 3 14 15 0),
      closed_entry 3 8 (utc 2024 6 3 10 0 0) (utc 2024 6 3 11 0 0),
      closed_entry 4 7 (utc 2024 6 4 23 0 0) (utc 2024 6 5 2 0 0),
      closed_entry 5 7 (utc 2023 12 31 22 0 0) (utc 2023 12 31 23 0 0)]"

definition june_open :: time_entry where
  "june_open =
     \<lparr>entry_id = 6, user_id = 7, start_time = utc 2024 6 6 8 0 0, end_time = None,
      start_timezone = ''UTC''\<rparr>"

definition june_db :: database where
  "june_db = \<lparr>time_entries = june_closed @ [june_open], next_id = 7\<rparr>"

section \<open>Properties\<close>

subsection \<open>Dates\<close>

lemma div_lower: "0 < k \<Longrightarrow> k * (x div k) \<le> (x::int)"
  using pos_mod_sign[of k x] mult_div_mod_eq[of k x] by linarith

lemma div_upper: "0 < k \<Longrightarrow> (x::int) < k * (x div k) + k"
  using pos_mod_bound[of k x] mult_div_mod_eq[of k x] by linarith

lemma DayFromYear_upper: "400 * DayFromYear y \<le> 146097 * (y - 1970) + 589"
proof -
  define a where "a = (y - 1969) div 4"
  define b where "b = (y - 1901) div 100"
  define c where "c = (y - 1601) div 400"
  have "4 * a \<le> y - 1969" unfolding a_def by (rule div_lower) simp
  then have 1: "400 * a \<le> 100 * y - 196900" by simp
  have "y - 1901 < 100 * b + 100" unfolding b_def by (rule div_upper) simp
  then have 2: "- 400 * b \<le> - 4 * y + 8000" by simp
  have 3: "400 * c \<le> y - 1601" unfolding c_def by (rule div_lower) simp
  have "400 * (365 * (y - 1970) + a - b + c) \<le> 146097 * (y - 1970) + 589"
    using 1 2 3 by (simp add: algebra_simps)
  then show ?thesis unfolding DayFromYear_def a_def b_def c_def .
qed

lemma DayFromYear_lower: "146097 * (y - 1970) - 506 \<le> 400 * DayFromYear y"
proof -
  define a where "a = (y - 1969) div 4"
  define b where "b = (y - 1901) div 100"
  define c where "c = (y - 1601) div 400"
  have "y - 1969 < 4 * a + 4" unfolding a_def by (rule div_upper) simp
  then have 1: "100 * y - 197200 \<le> 400 * a" by simp
  have "100 * b \<le> y - 1901" unfolding b_def by (rule div_lower) simp
  then have 2: "- 4 * y + 7604 \<le> - 400 * b" by simp
  have "y - 1601 < 400 * c + 400" unfolding c_def by (rule div_upper) simp
  then have 3: "y - 2000 \<le> 400 * c" by simp
  have "146097 * (y - 1970) - 506 \<le> 400 * (365 * (y - 1970) + a - b + c)"
    using 1 2 3 by (simp add: algebra_simps)
  then show ?thesis unfolding DayFromYear_def a_def b_def c_def .
qed

text \<open>\<open>YearFromDay d\<close> is the year whose days include \<open>d\<close>.\<close>

lemma YearFromDay_bounds:
  "DayFromYear (YearFromDay d) \<le> d \<and> d < DayFromYear (YearFromDay d + 1)"
proof -
  define q where "q = (400 * d) div 146097"
  have q1: "146097 * q \<le> 400 * d" unfolding q_def by (rule div_lower) simp
  have q2: "400 * d < 146097 * q + 146097" unfolding q_def by (rule div_upper) simp
  have lo: "DayFromYear (1970 + q - 1) \<le> d"
    using DayFromYear_upper[of "1970 + q - 1"] q1 by simp
  have hi: "d < DayFromYear (1970 + q + 1 + 1)"
    using DayFromYear_lower[of "1970 + q + 1 + 1"] q2 by simp
  show ?thesis
    unfolding YearFromDay_def q_def[symmetric] Let_def
    using lo hi by (auto simp: algebra_simps)
qed

lemmas date_eval = utc_def DayFromYear_def DaysInYear_def month_start_def msPerDay_def msPerHour_def

lemma WeekDay_range: "0 \<le> WeekDay t \<and> WeekDay t < 7"
  by (simp add: WeekDay_def)

lemma HourFromTime_range: "0 \<le> HourFromTime t \<and> HourFromTime t < 24"
  by (simp add: HourFromTime_def)

lemma weekday_short_Sun: "(weekday_short d = ''Sun'') = (d = 0)"
  by (simp add: weekday_short_def)

lemma weekday_short_Sat: "0 \<le> d \<Longrightarrow> d < 7 \<Longrightarrow> (weekday_short d = ''Sat'') = (d = 6)"
  by (auto simp: weekday_short_def)

lemma Day_midnight: "Day (d * msPerDay) = d"
  by (simp add: Day_def msPerDay_def)

lemma month_start_le: "0 \<le> d \<Longrightarrow> month_start leap (month_of_day leap d) \<le> d"
  by (simp add: month_of_day_def month_start_def)

lemma MonthFromTime_range: "0 \<le> MonthFromTime t \<and> MonthFromTime t \<le> 11"
  by (simp add: MonthFromTime_def month_of_day_def)

lemma DayWithinYear_nonneg: "0 \<le> DayWithinYear t"
  using YearFromDay_bounds[of "Day t"] by (simp add: DayWithinYear_def YearFromTime_def)

lemma DateFromTime_pos: "1 \<le> DateFromTime t"
  using month_start_le[OF DayWithinYear_nonneg, of "InLeapYear t" t]
  by (simp add: DateFromTime_def MonthFromTime_def)

subsection \<open>Date strings\<close>

declare dec.simps [simp del]

lemma below_ten: "n < 10 \<Longrightarrow> n \<in> {0, 1, 2, 3, 4, 5, 6, 7, 8, 9::nat}"
  by (simp, arith)

lemma digit_val_digit: "n < 10 \<Longrightarrow> digit_val (digit n) = n"
  using below_ten[of n] by (auto simp: digit_def digit_val_def)

lemma val_snoc: "val (s @ [c]) = val s * 10 + digit_val c"
  by (simp add: val_def)

lemma val_dec: "val (dec n) = n"
proof (induction n rule: dec.induct)
  case (1 n)
  show ?case
  proof (cases "n < 10")
    case True
    then show ?thesis by (simp add: dec.simps[of n] val_def digit_val_digit)
  next
    case False
    then show ?thesis using 1 by (simp add: dec.simps[of n] val_snoc digit_val_digit)
  qed
qed

lemma val_zeros: "val (replicate k CHR ''0'' @ s) = val s"
proof -
  have "foldl (\<lambda>a c. a * 10 + digit_val c) 0 (replicate k CHR ''0'') = 0"
    by (induction k) (simp_all add: digit_val_def)
  then show ?thesis by (simp add: val_def)
qed

lemma val_padStart: "val (padStart k CHR ''0'' (dec n)) = n"
  by (simp add: padStart_def val_zeros val_dec)

lemma digit_char: "n < 10 \<Longrightarrow> digit n \<in> set ''0123456789''"
  using below_ten[of n] by (auto simp: digit_def)

lemma dec_chars: "set (dec n) \<subseteq> set ''0123456789''"
proof (induction n rule: dec.induct)
  case (1 n)
  show ?case
  proof (cases "n < 10")
    case True
    then show ?thesis using digit_char[of n] by (simp add: dec.simps[of n])
  next
    case False
    then show ?thesis using 1 digit_char[of "n mod 10"] by (simp add: dec.simps[of n])
  qed
qed

lemma dec_nonempty: "dec n \<noteq> []"
  by (simp add: dec.simps[of n])

lemma padded_chars: "set (padStart k CHR ''0'' (dec n)) \<subseteq> set ''0123456789''"
  using dec_chars[of n] by (auto simp: padStart_def)

lemma padded_nonempty: "padStart k CHR ''0'' (dec n) \<noteq> []"
  by (simp add: padStart_def dec_nonempty)

lemma split_last:
  assumes "A @ c # B = A' @ c # B'" "c \<notin> set B" "c \<notin> set B'"
  shows "A = A' \<and> B = B'"
proof -
  have tw0: "c \<notin> set Z \<Longrightarrow> takeWhile (\<lambda>x. x \<noteq> c) (Z @ c # Y) = Z" for Z Y
    by (induction Z) auto
  have tw: "takeWhile (\<lambda>x. x \<noteq> c) (rev X @ c # Y) = rev X" if "c \<notin> set X" for X Y
    using that tw0[of "rev X" Y] by simp
  from assms(1) have "rev (A @ c # B) = rev (A' @ c # B')" by simp
  then have "rev B @ c # rev A = rev B' @ c # rev A'" by simp
  then have "takeWhile (\<lambda>x. x \<noteq> c) (rev B @ c # rev A) =
             takeWhile (\<lambda>x. x \<noteq> c) (rev B' @ c # rev A')" by simp
  then have "rev B = rev B'" using tw[OF assms(2)] tw[OF assms(3)] by simp
  then have "B = B'" by simp
  with assms(1) show ?thesis by simp
qed

lemma year_string_inj:
  assumes "year_string y = year_string y'"
  shows "y = y'"
proof -
  have digits: "hd (padStart k CHR ''0'' (dec n)) \<in> set ''0123456789''" for k n
    using padded_chars[of k n] padded_nonempty[of k n] hd_in_set by blast
  have small: "hd (year_string z) \<in> set ''0123456789''"
    if "0 \<le> z \<and> z \<le> 9999" for z
    using that digits by (simp add: year_string_def)
  have small_val: "val (year_string z) = nat z"
    if "0 \<le> z \<and> z \<le> 9999" for z
    using that by (simp add: year_string_def val_padStart)
  have neg: "hd (year_string z) = CHR ''-'' \<and> val (tl (year_string z)) = nat \<bar>z\<bar>"
    if "z < 0" for z
    using that by (simp add: year_string_def val_padStart)
  have big: "hd (year_string z) = CHR ''+'' \<and> val (tl (year_string z)) = nat \<bar>z\<bar>"
    if "9999 < z" for z
    using that by (simp add: year_string_def val_padStart)
  consider "0 \<le> y \<and> y \<le> 9999" | "y < 0" | "9999 < y" by linarith
  then show ?thesis
  proof cases
    case 1
    consider "0 \<le> y' \<and> y' \<le> 9999" | "y' < 0" | "9999 < y'" by linarith
    then show ?thesis
    proof cases
      case 1
      then have "nat y = nat y'"
        using small_val[of y] small_val[of y'] \<open>0 \<le> y \<and> y \<le> 9999\<close> assms by simp
      then have "int (nat y) = int (nat y')" by simp
      then show ?thesis using 1 \<open>0 \<le> y \<and> y \<le> 9999\<close> by simp
    next
      case 2
      then show ?thesis using small[of y] neg[of y'] \<open>0 \<le> y \<and> y \<le> 9999\<close> assms by auto
    next
      case 3
      then show ?thesis using small[of y] big[of y'] \<open>0 \<le> y \<and> y \<le> 9999\<close> assms by auto
    qed
  next
    case 2
    consider "0 \<le> y' \<and> y' \<le> 9999" | "y' < 0" | "9999 < y'" by linarith
    then show ?thesis
    proof cases
      case 1
      then show ?thesis using small[of y'] neg[of y] \<open>y < 0\<close> assms by auto
    next
      case 2
      then show ?thesis using neg[of y] neg[of y'] \<open>y < 0\<close> assms by simp
    next
      case 3
      then show ?thesis using neg[of y] big[of y'] \<open>y < 0\<close> assms by simp
    qed
  next
    case 3
    consider "0 \<le> y' \<and> y' \<le> 9999" | "y' < 0" | "9999 < y'" by linarith
    then show ?thesis
    proof cases
      case 1
      then show ?thesis using small[of y'] big[of y] \<open>9999 < y\<close> assms by auto
    next
      case 2
      then show ?thesis using big[of y] neg[of y'] \<open>9999 < y\<close> assms by simp
    next
      case 3
      then show ?thesis using big[of y] big[of y'] \<open>9999 < y\<close> assms by simp
    qed
  qed
qed

lemma two_digits_inj:
  assumes "two_digits n = two_digits n'" "0 \<le> n" "0 \<le> n'"
  shows "n = n'"
proof -
  have "val (two_digits n) = val (two_digits n')" using assms(1) by simp
  then have "nat n = nat n'" by (simp add: two_digits_def val_padStart)
  then show ?thesis using assms(2,3) by simp
qed

lemma two_digits_no_dash: "CHR ''-'' \<notin> set (two_digits n)"
  using padded_chars[of 2 "nat n"] by (auto simp: two_digits_def)

lemma toISODate_Day: "toISODate (Day t * msPerDay) = toISODate t"
  by (simp add: toISODate_def YearFromTime_def MonthFromTime_def DateFromTime_def
      DayWithinYear_def InLeapYear_def Day_midnight)

lemma toISODate_inj:
  assumes "toISODate t = toISODate t'"
  shows "Day t = Day t'"
proof -
  let ?Y = "year_string (YearFromTime t)" and ?Y' = "year_string (YearFromTime t')"
  let ?M = "two_digits (MonthFromTime t + 1)" and ?M' = "two_digits (MonthFromTime t' + 1)"
  let ?D = "two_digits (DateFromTime t)" and ?D' = "two_digits (DateFromTime t')"
  from assms have "(?Y @ ''-'' @ ?M) @ CHR ''-'' # ?D = (?Y' @ ''-'' @ ?M') @ CHR ''-'' # ?D'"
    by (simp add: toISODate_def)
  from split_last[OF this two_digits_no_dash two_digits_no_dash]
  have 1: "?Y @ CHR ''-'' # ?M = ?Y' @ CHR ''-'' # ?M'" and D: "?D = ?D'" by simp_all
  from split_last[OF 1 two_digits_no_dash two_digits_no_dash]
  have Y: "?Y = ?Y'" and M: "?M = ?M'" by simp_all
  from Y have y: "YearFromTime t = YearFromTime t'" by (rule year_string_inj)
  from M have "MonthFromTime t + 1 = MonthFromTime t' + 1"
    using MonthFromTime_range[of t] MonthFromTime_range[of t'] by (intro two_digits_inj) simp_all
  then have m: "MonthFromTime t = MonthFromTime t'" by simp
  from D have d: "DateFromTime t = DateFromTime t'"
    using DateFromTime_pos[of t] DateFromTime_pos[of t'] by (intro two_digits_inj) simp_all
  from y have l: "InLeapYear t = InLeapYear t'" by (simp add: InLeapYear_def)
  from d m l have "DayWithinYear t = DayWithinYear t'" by (simp add: DateFromTime_def)
  with y show ?thesis by (simp add: DayWithinYear_def)
qed

lemma toISODate_eq_iff: "toISODate t = toISODate t' \<longleftrightarrow> Day t = Day t'"
proof
  assume "toISODate t = toISODate t'"
  then show "Day t = Day t'" by (rule toISODate_inj)
next
  assume "Day t = Day t'"
  then show "toISODate t = toISODate t'"
    using toISODate_Day[of t] toISODate_Day[of t'] by simp
qed


subsection \<open>Arithmetic of the cap and of rounding\<close>

text \<open>
  The comparisons the handlers make on hours decide the same as comparisons on
  milliseconds.
\<close>

lemma hoursWorked_gt:
  "((of_int d :: rat) / (1000 * 60 * 60) > of_int MAX_SHIFT_HOURS) = (d > max_shift_ms)"
  unfolding MAX_SHIFT_HOURS_def max_shift_ms_def
  by (simp add: pos_less_divide_eq)

lemma elapsedHours_ge:
  "((of_int d :: rat) / 1000 / 3600 \<ge> of_int MAX_SHIFT_HOURS) = (d \<ge> max_shift_ms)"
  unfolding MAX_SHIFT_HOURS_def max_shift_ms_def
  by (simp add: pos_le_divide_eq)

lemma capped_end_bounds:
  "capped_end start now - start \<le> max_shift_ms \<and> (start \<le> now \<longrightarrow> 0 \<le> capped_end start now - start)"
  by (simp add: capped_end_def max_shift_ms_def MAX_SHIFT_HOURS_def)

text \<open>\<open>round2\<close> yields a multiple of 1/100 at most half a hundredth away.\<close>

lemma round2_close: "\<bar>round2 x - x\<bar> \<le> 1 / 200"
  unfolding round2_def Math_round_def
  by linarith

lemma Math_round_of_int: "Math_round (of_int n) = n"
  unfolding Math_round_def by linarith

lemma round2_hundredths: "round2 (of_int n / 100) = of_int n / 100"
  by (simp add: round2_def Math_round_of_int)

lemma round2_zero: "round2 0 = 0"
  using round2_hundredths[of 0] by simp

subsection \<open>The SQL statements\<close>

lemma filter_update_absent:
  "k x \<notin> k ` set xs \<Longrightarrow>
   filter (\<lambda>e. k e = k x) (map (\<lambda>e. if k e = k x then g e else e) xs) = []"
  by (induction xs) auto

lemma filter_update_distinct:
  assumes "distinct (map k xs)" "x \<in> set xs" "\<And>e. k (g e) = k e"
  shows "filter (\<lambda>e. k e = k x) (map (\<lambda>e. if k e = k x then g e else e) xs) = [g x]"
  using assms(1,2)
proof (induction xs)
  case Nil
  then show ?case by simp
next
  case (Cons a xs)
  show ?case
  proof (cases "a = x")
    case True
    then have "k x \<notin> k ` set xs" using Cons.prems(1) by simp
    then show ?thesis using True assms(3) by (simp add: filter_update_absent)
  next
    case False
    then have "x \<in> set xs" using Cons.prems(2) by simp
    moreover from this have "k a \<noteq> k x" using Cons.prems(1) by (auto simp: image_iff)
    ultimately show ?thesis using Cons by simp
  qed
qed

lemma filter_key_distinct:
  assumes "distinct (map k xs)" "x \<in> set xs"
  shows "filter (\<lambda>e. k e = k x) xs = [x]"
  using filter_update_distinct[OF assms, of "\<lambda>e. e"] by simp


lemma select_open_hd:
  assumes "select_open uid db = entry # rest"
  shows "entry \<in> set (time_entries db) \<and> user_id entry = uid \<and> end_time entry = None"
proof -
  have "entry \<in> set (select_open uid db)" using assms by simp
  then show ?thesis by (simp add: select_open_def)
qed

lemma select_open_single:
  assumes "one_open db" "e \<in> set (time_entries db)" "end_time e = None"
  shows "select_open (user_id e) db = [e]"
proof -
  let ?xs = "filter (\<lambda>e. end_time e = None) (time_entries db)"
  have "select_open (user_id e) db = filter (\<lambda>x. user_id x = user_id e) ?xs"
    by (simp add: select_open_def conj_commute)
  moreover have "distinct (map user_id ?xs)" using assms(1) by (simp add: one_open_def)
  moreover have "e \<in> set ?xs" using assms(2,3) by simp
  ultimately show ?thesis using filter_key_distinct[of user_id ?xs e] by simp
qed

lemma update_end_time_returning:
  assumes "distinct (map entry_id (time_entries db))" "entry \<in> set (time_entries db)"
  shows "fst (update_end_time t (entry_id entry) db) = [entry\<lparr>end_time := Some t\<rparr>]"
  unfolding update_end_time_def Let_def fst_conv
  using filter_update_distinct[of entry_id "time_entries db" entry "\<lambda>e. e\<lparr>end_time := Some t\<rparr>"] assms
  by simp

lemma update_end_time_other:
  assumes "e' \<in> set (time_entries (snd (update_end_time t i db)))" "entry_id e' \<noteq> i"
  shows "e' \<in> set (time_entries db)"
  using assms by (auto simp: update_end_time_def Let_def split: if_splits)

lemma update_end_time_same:
  assumes "distinct (map entry_id (time_entries db))" "entry \<in> set (time_entries db)"
    and "e' \<in> set (time_entries (snd (update_end_time t (entry_id entry) db)))"
    and "entry_id e' = entry_id entry"
  shows "e' = entry\<lparr>end_time := Some t\<rparr>"
proof -
  have "e' \<in> set (fst (update_end_time t (entry_id entry) db))"
    using assms(3,4) by (simp add: update_end_time_def Let_def)
  then show ?thesis
    unfolding update_end_time_returning[OF assms(1,2)] by simp
qed

lemma select_open_after_update:
  assumes "select_open uid db = [entry]"
  shows "select_open uid (snd (update_end_time T (entry_id entry) db)) = []"
proof -
  have "\<not> (user_id e = uid \<and> end_time e = None \<and> entry_id e \<noteq> entry_id entry)"
    if "e \<in> set (time_entries db)" for e
  proof
    assume a: "user_id e = uid \<and> end_time e = None \<and> entry_id e \<noteq> entry_id entry"
    then have "e \<in> set (select_open uid db)" using that by (simp add: select_open_def)
    then have "e = entry" using assms by simp
    then show False using a by simp
  qed
  then show ?thesis
    by (auto simp: select_open_def update_end_time_def Let_def filter_empty_conv)
qed

lemma completed_in_open: "end_time e = None \<Longrightarrow> \<not> completed_in uid ys ye e"
  by (simp add: completed_in_def)

lemma filter_completed_closed:
  "filter (completed_in uid ys ye) (filter (\<lambda>e. end_time e \<noteq> None) xs) =
   filter (completed_in uid ys ye) xs"
  by (induction xs) (auto simp: completed_in_def)

lemma sql_sum_Nil: "sql_sum [] = None"
  by (simp add: sql_sum_def)

lemma sql_sum_None: "sql_sum (None # vs) = sql_sum vs"
  by (simp add: sql_sum_def)

lemma sql_sum_Some: "sql_sum (Some x # vs) = Some (x + coalesce (sql_sum vs) 0)"
  by (simp add: sql_sum_def coalesce_def Let_def)

lemmas sql_sum_simps = sql_sum_Nil sql_sum_None sql_sum_Some


lemma year_total_query_empty:
  assumes "filter (completed_in uid ys ye) (time_entries db) = []"
  shows "year_total_query uid ys ye db = 0"
  using assms by (simp add: year_total_query_def sql_sum_Nil coalesce_def)

lemmas june_eval = june_db_def june_closed_def june_open_def closed_entry_def

subsection \<open>What the handlers do to the table\<close>


lemma snd_close_entry:
  "snd (close_entry entry db now) =
   snd (update_end_time (capped_end (start_time entry) now) (entry_id entry) db)"
proof -
  have e: "(if (of_int (now - start_time entry) :: rat) / (1000 * 60 * 60) > of_int MAX_SHIFT_HOURS
            then start_time entry + MAX_SHIFT_HOURS * 60 * 60 * 1000 else now)
          = capped_end (start_time entry) now"
    unfolding hoursWorked_gt capped_end_def max_shift_ms_def by simp
  show ?thesis
    unfolding close_entry_def Let_def e
    by (simp add: split_beta split: list.splits)
qed

lemma close_entry_ok:
  assumes "entry \<in> set (time_entries db)"
  shows "\<exists>r. close_entry entry db now =
           (sendJson 200 r,
            snd (update_end_time (capped_end (start_time entry) now) (entry_id entry) db)) \<and>
         co_id r = entry_id entry \<and>
         co_end_time r = Some (capped_end (start_time entry) now)"
proof -
  let ?T = "capped_end (start_time entry) now"
  let ?rows = "fst (update_end_time ?T (entry_id entry) db)"
  have e: "(if (of_int (now - start_time entry) :: rat) / (1000 * 60 * 60) > of_int MAX_SHIFT_HOURS
            then start_time entry + MAX_SHIFT_HOURS * 60 * 60 * 1000 else now) = ?T"
    unfolding hoursWorked_gt capped_end_def max_shift_ms_def by simp
  have "entry\<lparr>end_time := Some ?T\<rparr> \<in> set ?rows"
    using assms by (auto simp: update_end_time_def Let_def image_iff intro!: bexI[of _ entry])
  then obtain u us where rows: "?rows = u # us" by (cases ?rows) auto
  then have "u \<in> set ?rows" by simp
  then have u: "entry_id u = entry_id entry \<and> end_time u = Some ?T"
    by (auto simp: update_end_time_def Let_def split: if_splits)
  show ?thesis
    unfolding close_entry_def Let_def e
    using rows u by (simp add: split_beta)
qed

text \<open>What a handler can have done to the table.\<close>

lemma clock_out_table:
  "snd (clock_out fmt request db t_check now) = db \<or>
   (\<exists>uid entry rest. select_open uid db = entry # rest \<and>
      snd (clock_out fmt request db t_check now) =
        snd (update_end_time (capped_end (start_time entry) now) (entry_id entry) db))"
  unfolding clock_out_def
  by (auto simp: Let_def snd_close_entry split: option.splits list.splits)

lemma clock_out_unrestricted_table:
  "snd (clock_out_unrestricted request db now) = db \<or>
   (\<exists>uid entry rest. select_open uid db = entry # rest \<and>
      snd (clock_out_unrestricted request db now) =
        snd (update_end_time (capped_end (start_time entry) now) (entry_id entry) db))"
  unfolding clock_out_unrestricted_def
  by (auto simp: Let_def snd_close_entry split: option.splits list.splits)

lemma auto_timeout_table:
  "snd (auto_timeout uid db now) = db \<or>
   (\<exists>entry rest. select_open uid db = entry # rest \<and> max_shift_ms \<le> now - start_time entry \<and>
      snd (auto_timeout uid db now) =
        snd (update_end_time (start_time entry + max_shift_ms) (entry_id entry) db))"
  unfolding auto_timeout_def
  by (auto simp: Let_def elapsedHours_ge max_shift_ms_def split: list.splits)

lemma auto_timeout_closes:
  assumes "select_open uid db = entry # rest" "max_shift_ms \<le> now - start_time entry"
  shows "auto_timeout uid db now =
    ((False, None), snd (update_end_time (start_time entry + max_shift_ms) (entry_id entry) db))"
  using assms by (simp add: auto_timeout_def Let_def elapsedHours_ge max_shift_ms_def)

lemma auto_timeout_none:
  assumes "select_open uid db = []"
  shows "auto_timeout uid db now = ((False, None), db)"
  using assms by (simp add: auto_timeout_def)

lemma auto_timeout_keeps:
  assumes "\<forall>e\<in>set (select_open uid db). now - start_time e < max_shift_ms"
  shows "snd (auto_timeout uid db now) = db"
  using assms auto_timeout_table[of uid db now]
  by (cases "select_open uid db") (auto simp: auto_timeout_none)

text \<open>
  The earlier revision of clock-out is the later one on a platform that knows no
  zone, where the check never restricts.
\<close>

lemma clock_out_unrestricted_eq:
  "clock_out_unrestricted request db now = clock_out (\<lambda>timezone t. None) request db t_check now"
  by (simp add: clock_out_def clock_out_unrestricted_def checkWeekendRestriction_def Let_def
      split: option.splits list.splits)

lemma status_table:
  "snd (status request db now t_year) = db \<or>
   (\<exists>uid. current_user request = Some uid \<and>
      snd (status request db now t_year) = snd (auto_timeout uid db now))"
  unfolding status_def
  by (auto simp: Let_def split_beta split: option.splits)

subsection \<open>The invariants are preserved\<close>

lemma update_end_time_invariants:
  assumes "primary_key db \<and> one_open db"
  shows "primary_key (snd (update_end_time t i db)) \<and> one_open (snd (update_end_time t i db))"
proof -
  let ?f = "\<lambda>e. if entry_id e = i then e\<lparr>end_time := Some t\<rparr> else e"
  have ids: "entry_id \<circ> ?f = entry_id"
    by (auto simp: fun_eq_iff)
  have eq: "filter (\<lambda>e. end_time e = None) (map ?f xs) =
        filter (\<lambda>e. entry_id e \<noteq> i) (filter (\<lambda>e. end_time e = None) xs)" for xs
    by (induction xs) auto
  have "distinct (map user_id (filter (\<lambda>e. end_time e = None) (time_entries db)))"
    using assms by (simp add: one_open_def)
  then have "distinct (map user_id (filter (\<lambda>e. end_time e = None) (map ?f (time_entries db))))"
    unfolding eq by (rule distinct_map_filter)
  moreover have "list_all (\<lambda>e. entry_id e < next_id db) (map ?f (time_entries db))"
    using assms by (auto simp: primary_key_def list_all_iff)
  ultimately show ?thesis
    using assms by (simp add: primary_key_def one_open_def update_end_time_def Let_def ids)
qed

lemma insert_entry_invariants:
  assumes "primary_key db \<and> one_open db" "select_open uid db = []"
    and "insert_entry uid now tz db = Some (entry, db')"
  shows "primary_key db' \<and> one_open db'"
proof -
  have db': "db' = \<lparr>time_entries = time_entries db @
      [\<lparr>entry_id = next_id db, user_id = uid, start_time = now, end_time = None,
        start_timezone = tz\<rparr>], next_id = Suc (next_id db)\<rparr>"
    using assms(3) by (auto simp: insert_entry_def Let_def split: if_splits)
  have fresh: "next_id db \<notin> entry_id ` set (time_entries db)"
    using assms(1) by (auto simp: primary_key_def list_all_iff)
  have nouser: "uid \<notin> user_id ` set (filter (\<lambda>e. end_time e = None) (time_entries db))"
    using assms(2) by (auto simp: select_open_def filter_empty_conv)
  have "list_all (\<lambda>e. entry_id e < Suc (next_id db)) (time_entries db)"
    using assms(1) by (auto simp: primary_key_def list_all_iff less_Suc_eq)
  then show ?thesis
    unfolding db' using assms(1) fresh nouser by (simp add: primary_key_def one_open_def)
qed

text \<open>
  The empty table satisfies both invariants, and every handler preserves them: in a
  run of requests handled one after the other they always hold.
\<close>

lemma empty_invariants:
  "primary_key \<lparr>time_entries = [], next_id = n\<rparr> \<and> one_open \<lparr>time_entries = [], next_id = n\<rparr>"
  by (simp add: primary_key_def one_open_def)

lemma handlers_preserve_invariants:
  assumes "primary_key db \<and> one_open db"
  shows "primary_key (snd (clock_in fmt request db t_check t_now)) \<and>
         one_open (snd (clock_in fmt request db t_check t_now))"
    and "primary_key (snd (clock_out fmt request db t_check now)) \<and>
         one_open (snd (clock_out fmt request db t_check now))"
    and "primary_key (snd (clock_out_unrestricted request db now)) \<and>
         one_open (snd (clock_out_unrestricted request db now))"
    and "primary_key (snd (status request db now t_year)) \<and>
         one_open (snd (status request db now t_year))"
proof -
  show "primary_key (snd (clock_in fmt request db t_check t_now)) \<and>
         one_open (snd (clock_in fmt request db t_check t_now))"
    unfolding clock_in_def
    using assms insert_entry_invariants[OF assms]
    by (auto simp: Let_def split: option.splits jsval.splits)
  show "primary_key (snd (clock_out fmt request db t_check now)) \<and>
         one_open (snd (clock_out fmt request db t_check now))"
    using clock_out_table[of fmt request db t_check now] assms update_end_time_invariants[OF assms]
    by auto
  show "primary_key (snd (clock_out_unrestricted request db now)) \<and>
         one_open (snd (clock_out_unrestricted request db now))"
    using clock_out_unrestricted_table[of request db now] assms update_end_time_invariants[OF assms]
    by auto
  show "primary_key (snd (status request db now t_year)) \<and>
         one_open (snd (status request db now t_year))"
    using status_table[of request db now t_year] auto_timeout_table[of _ db now]
      assms update_end_time_invariants[OF assms]
    by metis
qed

lemma update_end_time_within_cap:
  assumes "primary_key db" "within_cap db" "entry \<in> set (time_entries db)"
    and "T - start_time entry \<le> max_shift_ms"
  shows "within_cap (snd (update_end_time T (entry_id entry) db))"
proof -
  have d: "distinct (map entry_id (time_entries db))"
    using assms(1) by (simp add: primary_key_def)
  have "case end_time e' of None \<Rightarrow> True | Some t \<Rightarrow> t - start_time e' \<le> max_shift_ms"
    if "e' \<in> set (time_entries (snd (update_end_time T (entry_id entry) db)))" for e'
  proof (cases "entry_id e' = entry_id entry")
    case True
    then have "e' = entry\<lparr>end_time := Some T\<rparr>"
      using update_end_time_same[OF d assms(3) that] by simp
    then show ?thesis using assms(4) by simp
  next
    case False
    then have "e' \<in> set (time_entries db)" using update_end_time_other[OF that] by simp
    then show ?thesis using assms(2) by (simp add: within_cap_def list_all_iff)
  qed
  then show ?thesis by (simp add: within_cap_def list_all_iff)
qed

text \<open>
  The cap as an invariant: starting from the empty table, whatever the clocks read,
  no handler ever leaves a closed row longer than 15 hours.
\<close>

lemma handlers_preserve_cap:
  assumes "primary_key db" "within_cap db"
  shows "within_cap (snd (clock_in fmt request db t_check t_now))"
    and "within_cap (snd (clock_out fmt request db t_check now))"
    and "within_cap (snd (clock_out_unrestricted request db now))"
    and "within_cap (snd (status request db now t_year))"
proof -
  have ins: "within_cap db'" if "insert_entry uid t tz db = Some (entry, db')" for uid t tz entry db'
    using that assms(2)
    by (auto simp: insert_entry_def Let_def within_cap_def split: if_splits)
  show "within_cap (snd (clock_in fmt request db t_check t_now))"
    unfolding clock_in_def using assms(2) ins
    by (auto simp: Let_def split: option.splits jsval.splits)
  have upd: "within_cap (snd (update_end_time T (entry_id entry) db))"
    if "select_open uid db = entry # rest" "T - start_time entry \<le> max_shift_ms"
    for uid entry rest T
    using update_end_time_within_cap[OF assms] select_open_hd[OF that(1)] that(2) by simp
  have cap: "capped_end s t - s \<le> max_shift_ms" for s t
    using capped_end_bounds[of s t] by simp
  show "within_cap (snd (clock_out fmt request db t_check now))"
    using clock_out_table[of fmt request db t_check now] assms(2) upd cap by metis
  show "within_cap (snd (clock_out_unrestricted request db now))"
    using clock_out_unrestricted_table[of request db now] assms(2) upd cap by metis
  have upd15: "within_cap (snd (update_end_time (start_time entry + max_shift_ms) (entry_id entry) db))"
    if "select_open uid db = entry # rest" for uid entry rest
    using upd[OF that, of "start_time entry + max_shift_ms"] by simp
  have "within_cap (snd (auto_timeout uid db now))" for uid
    using auto_timeout_table[of uid db now] assms(2) upd15 by metis
  then show "within_cap (snd (status request db now t_year))"
    using status_table[of request db now t_year] assms(2) by metis
qed

subsection \<open>The mapping of the heatmap\<close>



section \<open>The claims\<close>

subsection \<open>C1: the duration of a closed entry\<close>




subsection \<open>C2: the end time a clock-out records\<close>




subsection \<open>C3: the weekend restriction\<close>

text \<open>
  C3. For every instant and zone name: when the platform's formatter knows the zone
  and reports the local weekday and hour, \<open>checkWeekendRestriction\<close> returns a
  restriction exactly when the weekday is Sunday, or it is Saturday and the hour is
  at least 18; when the formatter throws (an unknown zone name) it returns none.
  On a platform with fixed offsets the weekday and hour are \<open>WeekDay\<close> (Sunday is 0,
  Saturday 6) and \<open>HourFromTime\<close> of the local time. The hour is the number the
  formatter prints: an engine that prints the hour after midnight as 24 makes the
  handler restrict Saturday from 00:00 to 00:59 as well.
\<close>

theorem weekend_restriction:
  "(fmt timezone now = Some (weekday, hour) \<longrightarrow>
      (checkWeekendRestriction fmt timezone now \<noteq> None) =
      (weekday = ''Sun'' \<or> weekday = ''Sat'' \<and> 18 \<le> hour)) \<and>
   (fmt timezone now = None \<longrightarrow> checkWeekendRestriction fmt timezone now = None) \<and>
   (map_of zones timezone = Some offset \<longrightarrow>
      (checkWeekendRestriction (fixed_zones zones) timezone now \<noteq> None) =
      (WeekDay (now + offset) = 0 \<or>
       WeekDay (now + offset) = 6 \<and> 18 \<le> HourFromTime (now + offset))) \<and>
   (map_of zones timezone = None \<longrightarrow>
      checkWeekendRestriction (fixed_zones zones) timezone now = None)"
proof -
  have "(weekday_short (WeekDay t) = ''Sat'') = (WeekDay t = 6)" for t
    using weekday_short_Sat[of "WeekDay t"] WeekDay_range[of t] by simp
  then show ?thesis
    by (simp add: checkWeekendRestriction_def fixed_zones_def weekday_short_Sun)
qed

theorem weekend_restriction_witness:
  "checkWeekendRestriction june_2024 ''America/New_York'' (utc 2024 6 2 14 0 0) \<noteq> None \<and>
   checkWeekendRestriction june_2024 ''America/New_York'' (utc 2024 6 1 22 0 0) \<noteq> None \<and>
   checkWeekendRestriction june_2024 ''America/New_York'' (utc 2024 6 1 21 59 59) = None \<and>
   checkWeekendRestriction june_2024 ''Mars/Olympus_Mons'' (utc 2024 6 2 14 0 0) = None"
proof -
  have sun: "june_2024 ''America/New_York'' (utc 2024 6 2 14 0 0) = Some (''Sun'', 10)"
    by (simp add: june_2024_def fixed_zones_def weekday_short_def WeekDay_def HourFromTime_def
        Day_def date_eval)
  have sat18: "june_2024 ''America/New_York'' (utc 2024 6 1 22 0 0) = Some (''Sat'', 18)"
    by (simp add: june_2024_def fixed_zones_def weekday_short_def WeekDay_def HourFromTime_def
        Day_def date_eval)
  have sat17: "june_2024 ''America/New_York'' (utc 2024 6 1 21 59 59) = Some (''Sat'', 17)"
    by (simp add: june_2024_def fixed_zones_def weekday_short_def WeekDay_def HourFromTime_def
        Day_def date_eval)
  have unknown: "june_2024 ''Mars/Olympus_Mons'' (utc 2024 6 2 14 0 0) = None"
    by (simp add: june_2024_def fixed_zones_def)
  from weekend_restriction[of june_2024 "''America/New_York''" "utc 2024 6 2 14 0 0" "''Sun''" 10]
    weekend_restriction[of june_2024 "''America/New_York''" "utc 2024 6 1 22 0 0" "''Sat''" 18]
    weekend_restriction[of june_2024 "''America/New_York''" "utc 2024 6 1 21 59 59" "''Sat''" 17]
    weekend_restriction[of june_2024 "''Mars/Olympus_Mons''" "utc 2024 6 2 14 0 0"]
    sun sat18 sat17 unknown
  show ?thesis by simp
qed

subsection \<open>C4: the auto-timeout happens once\<close>

text \<open>
  C4. In a table where no user has two open entries, let a user's open entry have
  \<open>now - start_time \<ge> 15 hours\<close> at a status read. The read answers "not working" and
  sets the end time of that entry to \<open>start_time + 15 hours\<close> (the table is otherwise
  the same). After it the user has no open entry, and a second status read, at any
  later clock readings, answers "not working" and leaves the table as the first
  read left it.
\<close>

theorem status_auto_timeout_once:
  assumes "one_open db"
    and "req_method request = ''GET''"
    and "current_user request = Some uid"
    and "entry \<in> set (time_entries db)" and "user_id entry = uid" and "end_time entry = None"
    and "max_shift_ms \<le> now - start_time entry"
    and "db1 = snd (status request db now t_year)"
  shows "time_entries db1 =
           map (\<lambda>e. if entry_id e = entry_id entry
                     then e\<lparr>end_time := Some (start_time entry + max_shift_ms)\<rparr> else e)
             (time_entries db) \<and>
         entry\<lparr>end_time := Some (start_time entry + max_shift_ms)\<rparr> \<in> set (time_entries db1) \<and>
         next_id db1 = next_id db \<and>
         select_open uid db1 = [] \<and>
         (\<exists>total. fst (status request db now t_year) =
            sendJson 200 \<lparr>is_working = False, current_session = None, year_total_hours = total\<rparr>) \<and>
         snd (status request db1 now' t_year') = db1 \<and>
         (\<exists>total. fst (status request db1 now' t_year') =
            sendJson 200 \<lparr>is_working = False, current_session = None, year_total_hours = total\<rparr>)"
proof -
  let ?T = "start_time entry + max_shift_ms"
  have sel: "select_open uid db = [entry]"
    using select_open_single[OF assms(1,4,6)] assms(5) by simp
  have at: "auto_timeout uid db now = ((False, None), snd (update_end_time ?T (entry_id entry) db))"
    using auto_timeout_closes[OF sel assms(7)] .
  have db1: "db1 = snd (update_end_time ?T (entry_id entry) db)"
    using assms(2,3,8) at by (simp add: status_def Let_def)
  have sel1: "select_open uid db1 = []"
    unfolding db1 using select_open_after_update[OF sel] .
  have at1: "auto_timeout uid db1 now' = ((False, None), db1)"
    using auto_timeout_none[OF sel1] .
  have rows: "time_entries db1 =
           map (\<lambda>e. if entry_id e = entry_id entry then e\<lparr>end_time := Some ?T\<rparr> else e)
             (time_entries db)"
    unfolding db1 by (simp add: update_end_time_def Let_def)
  have mem: "entry\<lparr>end_time := Some ?T\<rparr> \<in> set (time_entries db1)"
    unfolding rows using assms(4) by (auto simp: image_iff intro!: bexI[of _ entry])
  have nid: "next_id db1 = next_id db"
    unfolding db1 by (simp add: update_end_time_def Let_def)
  have r1: "\<exists>total. fst (status request db now t_year) =
            sendJson 200 \<lparr>is_working = False, current_session = None, year_total_hours = total\<rparr>"
    using assms(2,3) at by (simp add: status_def Let_def)
  have r2: "\<exists>total. fst (status request db1 now' t_year') =
            sendJson 200 \<lparr>is_working = False, current_session = None, year_total_hours = total\<rparr>"
    using assms(2,3) at1 by (simp add: status_def Let_def)
  have s2: "snd (status request db1 now' t_year') = db1"
    using assms(2,3) at1 by (simp add: status_def Let_def)
  show ?thesis using rows mem nid sel1 r1 s2 r2 by blast
qed

theorem status_auto_timeout_once_witness:
  "time_entries (snd (status (get 7) (saturday_shift ''UTC'') (utc 2024 6 1 23 0 0) (utc 2024 6 1 23 0 0))) =
     [\<lparr>entry_id = 1, user_id = 7, start_time = utc 2024 6 1 8 0 0,
       end_time = Some (utc 2024 6 1 23 0 0), start_timezone = ''UTC''\<rparr>] \<and>
   select_open 7 (snd (status (get 7) (saturday_shift ''UTC'') (utc 2024 6 1 23 0 0) (utc 2024 6 1 23 0 0))) = [] \<and>
   snd (status (get 7)
          (snd (status (get 7) (saturday_shift ''UTC'') (utc 2024 6 1 23 0 0) (utc 2024 6 1 23 0 0)))
          (utc 2024 6 1 23 0 1) (utc 2024 6 1 23 0 1)) =
     snd (status (get 7) (saturday_shift ''UTC'') (utc 2024 6 1 23 0 0) (utc 2024 6 1 23 0 0))"
proof -
  let ?e = "\<lparr>entry_id = 1, user_id = 7, start_time = utc 2024 6 1 8 0 0,
          end_time = None, start_timezone = ''UTC''\<rparr>"
  let ?db = "saturday_shift ''UTC''"
  have 1: "one_open ?db" by (simp add: one_open_def saturday_shift_def shift_since_def)
  have 2: "req_method (get 7) = ''GET''" by (simp add: get_def)
  have 3: "current_user (get 7) = Some 7" by (simp add: get_def)
  have 4: "?e \<in> set (time_entries ?db)" by (simp add: saturday_shift_def shift_since_def)
  have 5: "user_id ?e = 7" by simp
  have 6: "end_time ?e = None" by simp
  have 7: "max_shift_ms \<le> utc 2024 6 1 23 0 0 - start_time ?e"
    by (simp add: max_shift_ms_def MAX_SHIFT_HOURS_def date_eval)
  have 8: "start_time ?e + max_shift_ms = utc 2024 6 1 23 0 0"
    by (simp add: max_shift_ms_def MAX_SHIFT_HOURS_def date_eval)
  from status_auto_timeout_once[OF 1 2 3 4 5 6 7 refl,
      of "utc 2024 6 1 23 0 0" "utc 2024 6 1 23 0 1" "utc 2024 6 1 23 0 1"]
  show ?thesis
    unfolding 8 by (simp add: saturday_shift_def shift_since_def)
qed

subsection \<open>C5: open entries and the aggregates\<close>

text \<open>
  C5. On every table, for every user and year range, the year total and the heatmap
  rows are those of the table's closed entries alone, and so is the heatmap response:
  putting an open entry into the table, whatever its start time, changes none of
  them. The status read reports the year total, rounded, of the table it leaves
  behind: an entry still open there adds nothing, and an entry that the read's
  auto-timeout step has just closed is a closed entry there.
\<close>

theorem aggregates_ignore_open:
  assumes "end_time e = None"
  shows "year_total_query uid ys ye (db\<lparr>time_entries := xs @ e # zs\<rparr>) =
           year_total_query uid ys ye (db\<lparr>time_entries := xs @ zs\<rparr>) \<and>
         heatmap_query uid ys ye (db\<lparr>time_entries := xs @ e # zs\<rparr>) =
           heatmap_query uid ys ye (db\<lparr>time_entries := xs @ zs\<rparr>) \<and>
         heatmap request (db\<lparr>time_entries := xs @ e # zs\<rparr>) now =
           heatmap request (db\<lparr>time_entries := xs @ zs\<rparr>) now \<and>
         year_total_query uid ys ye db =
           year_total_query uid ys ye
             (db\<lparr>time_entries := filter (\<lambda>e. end_time e \<noteq> None) (time_entries db)\<rparr>) \<and>
         heatmap_query uid ys ye db =
           heatmap_query uid ys ye
             (db\<lparr>time_entries := filter (\<lambda>e. end_time e \<noteq> None) (time_entries db)\<rparr>) \<and>
         (req_method request = ''GET'' \<and> current_user request = Some uid \<longrightarrow>
            (\<exists>w s. fst (status request db now t_year) =
               sendJson 200
                 \<lparr>is_working = w, current_session = s,
                  year_total_hours =
                    round2 (year_total_query uid (TimeFromYear (getFullYear t_year))
                              (TimeFromYear (getFullYear t_year + 1))
                              (snd (status request db now t_year)))\<rparr>))"
proof -
  have sel: "filter (completed_in uid ys ye) (time_entries (db\<lparr>time_entries := xs @ e # zs\<rparr>)) =
             filter (completed_in uid ys ye) (time_entries (db\<lparr>time_entries := xs @ zs\<rparr>))"
    for uid ys ye
    using completed_in_open[OF assms] by simp
  have closed: "filter (completed_in uid ys ye)
                  (time_entries (db\<lparr>time_entries := filter (\<lambda>e. end_time e \<noteq> None) (time_entries db)\<rparr>)) =
                filter (completed_in uid ys ye) (time_entries db)"
    using filter_completed_closed[of uid ys ye "time_entries db"] by simp
  have st: "req_method request = ''GET'' \<and> current_user request = Some uid \<longrightarrow>
            (\<exists>w s. fst (status request db now t_year) =
               sendJson 200
                 \<lparr>is_working = w, current_session = s,
                  year_total_hours =
                    round2 (year_total_query uid (TimeFromYear (getFullYear t_year))
                              (TimeFromYear (getFullYear t_year + 1))
                              (snd (status request db now t_year)))\<rparr>)"
    by (simp add: status_def Let_def split_beta)
  have rest: "year_total_query uid ys ye (db\<lparr>time_entries := xs @ e # zs\<rparr>) =
           year_total_query uid ys ye (db\<lparr>time_entries := xs @ zs\<rparr>) \<and>
         heatmap_query uid ys ye (db\<lparr>time_entries := xs @ e # zs\<rparr>) =
           heatmap_query uid ys ye (db\<lparr>time_entries := xs @ zs\<rparr>) \<and>
         heatmap request (db\<lparr>time_entries := xs @ e # zs\<rparr>) now =
           heatmap request (db\<lparr>time_entries := xs @ zs\<rparr>) now \<and>
         year_total_query uid ys ye db =
           year_total_query uid ys ye
             (db\<lparr>time_entries := filter (\<lambda>e. end_time e \<noteq> None) (time_entries db)\<rparr>) \<and>
         heatmap_query uid ys ye db =
           heatmap_query uid ys ye
             (db\<lparr>time_entries := filter (\<lambda>e. end_time e \<noteq> None) (time_entries db)\<rparr>)"
    unfolding year_total_query_def heatmap_query_def heatmap_def sel closed by simp
  show ?thesis using rest st by blast
qed

theorem aggregates_ignore_open_witness:
  "year_total_query 7 (TimeFromYear 2024) (TimeFromYear 2025) june_db = 29 / 4 \<and>
   heatmap_query 7 (TimeFromYear 2024) (TimeFromYear 2025) june_db =
     [(Day (utc 2024 6 3 0 0 0), Some (17 / 4)), (Day (utc 2024 6 4 0 0 0), Some 3)]"
proof -
  have 1: "end_time june_open = None" by (simp add: june_open_def)
  have db: "june_db\<lparr>time_entries := june_closed @ june_open # []\<rparr> = june_db"
    by (simp add: june_db_def)
  have y: "year_total_query 7 (TimeFromYear 2024) (TimeFromYear 2025)
             (june_db\<lparr>time_entries := june_closed @ []\<rparr>) = 29 / 4"
    by (simp add: year_total_query_def completed_in_def june_eval TimeFromYear_def date_eval
        epoch_hours_def sql_sum_simps coalesce_def)
  have h: "heatmap_query 7 (TimeFromYear 2024) (TimeFromYear 2025)
             (june_db\<lparr>time_entries := june_closed @ []\<rparr>) =
           [(Day (utc 2024 6 3 0 0 0), Some (17 / 4)), (Day (utc 2024 6 4 0 0 0), Some 3)]"
    by (simp add: heatmap_query_def completed_in_def june_eval TimeFromYear_def date_eval Day_def
        epoch_hours_def sql_sum_simps coalesce_def)
  note inst = aggregates_ignore_open[OF 1, where uid = 7 and ys = "TimeFromYear 2024"
      and ye = "TimeFromYear 2025" and db = june_db and xs = june_closed and zs = "[]"]
  have a: "year_total_query 7 (TimeFromYear 2024) (TimeFromYear 2025) june_db = 29 / 4"
    using inst[THEN conjunct1] unfolding db y .
  have b: "heatmap_query 7 (TimeFromYear 2024) (TimeFromYear 2025) june_db =
     [(Day (utc 2024 6 3 0 0 0), Some (17 / 4)), (Day (utc 2024 6 4 0 0 0), Some 3)]"
    using inst[THEN conjunct2, THEN conjunct1] unfolding db h .
  show ?thesis using a b by (rule conjI)
qed

subsection \<open>C6: the weekend restriction at clock-out\<close>

text \<open>
  C6. Let a logged-in user with an open entry post a clock-out. The handler reads
  nothing of the request but its \<open>auto\<close> flag, so a timezone sent with it changes
  nothing. For a manual request on an entry with a stored timezone, the restriction
  is checked on the stored timezone: when it restricts, the answer is the error 400
  with the restriction's message and the table is unchanged (the entry stays open);
  when it does not, the entry is closed. An automatic request closes the entry
  without any check, whatever the platform reports.
\<close>

theorem clock_out_restriction:
  assumes "req_method request = ''POST''"
    and "current_user request = Some uid"
    and "select_open uid db = entry # rest"
  shows "(\<not> isAuto request \<and> start_timezone entry \<noteq> [] \<and>
          checkWeekendRestriction fmt (start_timezone entry) t_check = Some msg \<longrightarrow>
            clock_out fmt request db t_check now = (sendError 400 msg, db) \<and>
            select_open uid (snd (clock_out fmt request db t_check now)) = entry # rest) \<and>
         (\<not> isAuto request \<and>
          checkWeekendRestriction fmt (start_timezone entry) t_check = None \<longrightarrow>
            clock_out fmt request db t_check now = close_entry entry db now) \<and>
         (isAuto request \<longrightarrow> clock_out fmt request db t_check now = close_entry entry db now) \<and>
         (\<exists>r. close_entry entry db now =
            (sendJson 200 r,
             snd (update_end_time (capped_end (start_time entry) now) (entry_id entry) db))) \<and>
         (req_method request' = ''POST'' \<and> current_user request' = Some uid \<and>
          isAuto request' = isAuto request \<longrightarrow>
            clock_out fmt request' db t_check now = clock_out fmt request db t_check now)"
proof -
  have m: "entry \<in> set (time_entries db)" using select_open_hd[OF assms(3)] by simp
  have ok: "\<exists>r. close_entry entry db now =
            (sendJson 200 r,
             snd (update_end_time (capped_end (start_time entry) now) (entry_id entry) db))"
    using close_entry_ok[OF m, of now] by blast
  show ?thesis
    using assms ok by (auto simp: clock_out_def Let_def)
qed

theorem clock_out_restriction_witness:
  "clock_out june_2024 (post 7 [(''timezone'', JStr ''America/Los_Angeles'')])
     (saturday_shift ''America/New_York'') (utc 2024 6 1 23 59 0) (utc 2024 6 1 23 59 0) =
     (sendError 400 ''Clock in/out is not available after 6pm on Saturdays.'',
      saturday_shift ''America/New_York'') \<and>
   clock_out june_2024 (post 7 [(''auto'', JBool True)])
     (saturday_shift ''America/New_York'') (utc 2024 6 1 23 59 0) (utc 2024 6 1 23 59 0) =
     close_entry
       \<lparr>entry_id = 1, user_id = 7, start_time = utc 2024 6 1 8 0 0, end_time = None,
        start_timezone = ''America/New_York''\<rparr>
       (saturday_shift ''America/New_York'') (utc 2024 6 1 23 59 0)"
proof -
  let ?e = "\<lparr>entry_id = 1, user_id = 7, start_time = utc 2024 6 1 8 0 0, end_time = None,
        start_timezone = ''America/New_York''\<rparr>"
  let ?db = "saturday_shift ''America/New_York''"
  let ?t = "utc 2024 6 1 23 59 0"
  let ?manual = "post 7 [(''timezone'', JStr ''America/Los_Angeles'')]"
  let ?auto = "post 7 [(''auto'', JBool True)]"
  have 1: "req_method ?manual = ''POST''" "req_method ?auto = ''POST''" by (simp_all add: post_def)
  have 2: "current_user ?manual = Some 7" "current_user ?auto = Some 7" by (simp_all add: post_def)
  have 3: "select_open 7 ?db = ?e # []"
    by (simp add: select_open_def saturday_shift_def shift_since_def)
  have 4: "\<not> isAuto ?manual" "isAuto ?auto" by (simp_all add: isAuto_def post_def field_def)
  have 5: "checkWeekendRestriction june_2024 (start_timezone ?e) ?t =
             Some ''Clock in/out is not available after 6pm on Saturdays.''"
    by (simp add: checkWeekendRestriction_def june_2024_def fixed_zones_def weekday_short_def
        WeekDay_def HourFromTime_def Day_def date_eval)
  from clock_out_restriction[OF 1(1) 2(1) 3, where fmt = june_2024 and t_check = ?t and now = ?t
      and msg = "''Clock in/out is not available after 6pm on Saturdays.''"] 4(1) 5
  have a: "clock_out june_2024 ?manual ?db ?t ?t =
     (sendError 400 ''Clock in/out is not available after 6pm on Saturdays.'', ?db)"
    by simp
  from clock_out_restriction[OF 1(2) 2(2) 3, where fmt = june_2024 and t_check = ?t and now = ?t] 4(2)
  have b: "clock_out june_2024 ?auto ?db ?t ?t = close_entry ?e ?db ?t"
    by simp
  show ?thesis using a b by (rule conjI)
qed

subsection \<open>C7: clock-in creates the entry or nothing\<close>

text \<open>
  C7. Let a logged-in user post a clock-in with a non-empty timezone string. The
  checks run in this order. If the weekend restriction holds for the timezone, the
  answer is the error 400 with the restriction's message. Otherwise, if the user has
  an open entry, the answer is the error 400 "You are already clocked in.". In both
  cases the table is unchanged. Otherwise one open row is appended (start time the
  database's \<^verbatim>\<open>NOW()\<close>, the timezone as sent), unless the timezone is longer than the
  column allows. For every request whatsoever: an error answer leaves the table
  unchanged, and the table changes only by appending that open row after both checks
  have passed.
\<close>

theorem clock_in_atomic:
  assumes "req_method request = ''POST''"
    and "current_user request = Some uid"
    and "req_body request = Some body"
    and "field body ''timezone'' = JStr tz" and "tz \<noteq> []"
  shows "(checkWeekendRestriction fmt tz t_check = Some msg \<longrightarrow>
            clock_in fmt request db t_check t_now = (sendError 400 msg, db)) \<and>
         (checkWeekendRestriction fmt tz t_check = None \<and> select_open uid db \<noteq> [] \<longrightarrow>
            clock_in fmt request db t_check t_now =
              (sendError 400 ''You are already clocked in.'', db)) \<and>
         (checkWeekendRestriction fmt tz t_check = None \<and> select_open uid db = [] \<and>
          length tz \<le> 100 \<longrightarrow>
            clock_in fmt request db t_check t_now =
              (sendJson 201 \<lparr>ci_id = next_id db, ci_start_time = t_now, ci_timezone = tz\<rparr>,
               \<lparr>time_entries = time_entries db @
                  [\<lparr>entry_id = next_id db, user_id = uid, start_time = t_now,
                    end_time = None, start_timezone = tz\<rparr>],
                next_id = Suc (next_id db)\<rparr>)) \<and>
         (\<forall>request' code message.
            fst (clock_in fmt request' db t_check t_now) = sendError code message \<longrightarrow>
            snd (clock_in fmt request' db t_check t_now) = db) \<and>
         (\<forall>request'.
            snd (clock_in fmt request' db t_check t_now) \<noteq> db \<longrightarrow>
            (\<exists>uid' body' tz'.
               current_user request' = Some uid' \<and> req_body request' = Some body' \<and>
               field body' ''timezone'' = JStr tz' \<and>
               checkWeekendRestriction fmt tz' t_check = None \<and>
               select_open uid' db = [] \<and>
               snd (clock_in fmt request' db t_check t_now) =
                 \<lparr>time_entries = time_entries db @
                    [\<lparr>entry_id = next_id db, user_id = uid', start_time = t_now,
                      end_time = None, start_timezone = tz'\<rparr>],
                  next_id = Suc (next_id db)\<rparr>))"
proof -
  have a: "checkWeekendRestriction fmt tz t_check = Some msg \<longrightarrow>
            clock_in fmt request db t_check t_now = (sendError 400 msg, db)"
    using assms by (simp add: clock_in_def Let_def)
  have b: "checkWeekendRestriction fmt tz t_check = None \<and> select_open uid db \<noteq> [] \<longrightarrow>
            clock_in fmt request db t_check t_now =
              (sendError 400 ''You are already clocked in.'', db)"
    using assms by (simp add: clock_in_def Let_def)
  have c: "checkWeekendRestriction fmt tz t_check = None \<and> select_open uid db = [] \<and>
          length tz \<le> 100 \<longrightarrow>
            clock_in fmt request db t_check t_now =
              (sendJson 201 \<lparr>ci_id = next_id db, ci_start_time = t_now, ci_timezone = tz\<rparr>,
               \<lparr>time_entries = time_entries db @
                  [\<lparr>entry_id = next_id db, user_id = uid, start_time = t_now,
                    end_time = None, start_timezone = tz\<rparr>],
                next_id = Suc (next_id db)\<rparr>)"
    using assms by (simp add: clock_in_def Let_def insert_entry_def)
  have d: "fst (clock_in fmt request' db t_check t_now) = sendError code message \<longrightarrow>
            snd (clock_in fmt request' db t_check t_now) = db" for request' code message
    by (auto simp: clock_in_def Let_def insert_entry_def split: option.splits jsval.splits if_splits)
  have e: "snd (clock_in fmt request' db t_check t_now) \<noteq> db \<longrightarrow>
            (\<exists>uid' body' tz'.
               current_user request' = Some uid' \<and> req_body request' = Some body' \<and>
               field body' ''timezone'' = JStr tz' \<and>
               checkWeekendRestriction fmt tz' t_check = None \<and>
               select_open uid' db = [] \<and>
               snd (clock_in fmt request' db t_check t_now) =
                 \<lparr>time_entries = time_entries db @
                    [\<lparr>entry_id = next_id db, user_id = uid', start_time = t_now,
                      end_time = None, start_timezone = tz'\<rparr>],
                  next_id = Suc (next_id db)\<rparr>)" for request'
    by (auto simp: clock_in_def Let_def insert_entry_def split: option.splits jsval.splits if_splits)
  show ?thesis using a b c d e by blast
qed

theorem clock_in_atomic_witness:
  "clock_in june_2024 (post 9 [(''timezone'', JStr ''America/New_York'')]) june_db
     (utc 2024 6 2 14 0 0) (utc 2024 6 2 14 0 0) =
     (sendError 400 ''Clock in/out is not available on Sundays.'', june_db) \<and>
   clock_in june_2024 (post 7 [(''timezone'', JStr ''America/New_York'')]) june_db
     (utc 2024 6 7 14 0 0) (utc 2024 6 7 14 0 0) =
     (sendError 400 ''You are already clocked in.'', june_db) \<and>
   clock_in june_2024 (post 9 [(''timezone'', JStr ''America/New_York'')]) june_db
     (utc 2024 6 7 14 0 0) (utc 2024 6 7 14 0 1) =
     (sendJson 201
        \<lparr>ci_id = 7, ci_start_time = utc 2024 6 7 14 0 1, ci_timezone = ''America/New_York''\<rparr>,
      \<lparr>time_entries = time_entries june_db @
         [\<lparr>entry_id = 7, user_id = 9, start_time = utc 2024 6 7 14 0 1,
           end_time = None, start_timezone = ''America/New_York''\<rparr>],
       next_id = 8\<rparr>)"
proof -
  let ?body = "[(''timezone'', JStr ''America/New_York'')]"
  let ?sunday = "utc 2024 6 2 14 0 0"
  let ?friday = "utc 2024 6 7 14 0 0"
  have 1: "req_method (post u ?body) = ''POST''" for u by (simp add: post_def)
  have 2: "current_user (post u ?body) = Some u" for u by (simp add: post_def)
  have 3: "req_body (post u ?body) = Some ?body" for u by (simp add: post_def)
  have 4: "field ?body ''timezone'' = JStr ''America/New_York''" by (simp add: field_def)
  have 5: "''America/New_York'' \<noteq> []" by simp
  have sun: "checkWeekendRestriction june_2024 ''America/New_York'' ?sunday =
      Some ''Clock in/out is not available on Sundays.''"
    by (simp add: checkWeekendRestriction_def june_2024_def fixed_zones_def weekday_short_def
        WeekDay_def HourFromTime_def Day_def date_eval)
  have fri: "checkWeekendRestriction june_2024 ''America/New_York'' ?friday = None"
    by (simp add: checkWeekendRestriction_def june_2024_def fixed_zones_def weekday_short_def
        WeekDay_def HourFromTime_def Day_def date_eval)
  have open7: "select_open 7 june_db \<noteq> []"
    by (simp add: select_open_def june_eval)
  have open9: "select_open 9 june_db = []"
    by (simp add: select_open_def june_eval)
  have len: "length ''America/New_York'' \<le> 100" by simp
  have nid: "next_id june_db = 7" by (simp add: june_db_def)
  from clock_in_atomic[OF 1[of 9] 2[of 9] 3[of 9] 4 5, where fmt = june_2024 and t_check = ?sunday
      and t_now = ?sunday and db = june_db] sun
  have a: "clock_in june_2024 (post 9 ?body) june_db ?sunday ?sunday =
     (sendError 400 ''Clock in/out is not available on Sundays.'', june_db)"
    by simp
  from clock_in_atomic[OF 1[of 7] 2[of 7] 3[of 7] 4 5, where fmt = june_2024 and t_check = ?friday
      and t_now = ?friday and db = june_db] fri open7
  have b: "clock_in june_2024 (post 7 ?body) june_db ?friday ?friday =
     (sendError 400 ''You are already clocked in.'', june_db)"
    by simp
  from clock_in_atomic[OF 1[of 9] 2[of 9] 3[of 9] 4 5, where fmt = june_2024 and t_check = ?friday
      and t_now = "utc 2024 6 7 14 0 1" and db = june_db] fri open9 len
  have c: "clock_in june_2024 (post 9 ?body) june_db ?friday (utc 2024 6 7 14 0 1) =
     (sendJson 201
        \<lparr>ci_id = 7, ci_start_time = utc 2024 6 7 14 0 1, ci_timezone = ''America/New_York''\<rparr>,
      \<lparr>time_entries = time_entries june_db @
         [\<lparr>entry_id = 7, user_id = 9, start_time = utc 2024 6 7 14 0 1,
           end_time = None, start_timezone = ''America/New_York''\<rparr>],
       next_id = 8\<rparr>)"
    by (simp add: nid)
  show ?thesis using a b c by blast
qed

subsection \<open>C8: the heatmap\<close>



subsection \<open>C9: clock-out of an entry without a stored timezone\<close>

text \<open>
  C9. A clock-out, manual or not, of an open entry whose stored timezone is the empty
  string never consults the weekend restriction: on every platform and at every
  instant it closes the entry. (The column is \<^verbatim>\<open>NOT NULL\<close>, so the empty string is its
  only falsy value; clock-in refuses an empty timezone, so such a row does not come
  from this handler.)
\<close>

theorem clock_out_empty_timezone:
  assumes "req_method request = ''POST''"
    and "current_user request = Some uid"
    and "select_open uid db = entry # rest"
    and "start_timezone entry = []"
  shows "\<exists>r. clock_out fmt request db t_check now =
           (sendJson 200 r,
            snd (update_end_time (capped_end (start_time entry) now) (entry_id entry) db)) \<and>
         co_id r = entry_id entry \<and>
         co_end_time r = Some (capped_end (start_time entry) now)"
proof -
  have m: "entry \<in> set (time_entries db)" using select_open_hd[OF assms(3)] by simp
  have "clock_out fmt request db t_check now = close_entry entry db now"
    using assms by (simp add: clock_out_def Let_def)
  then show ?thesis using close_entry_ok[OF m, of now] by simp
qed

theorem clock_out_empty_timezone_witness:
  "clock_out always_sunday (post 7 []) (saturday_shift [])
     (utc 2024 6 2 10 0 0) (utc 2024 6 2 10 0 0) =
   (sendJson 200
      \<lparr>co_id = 1, co_start_time = utc 2024 6 1 8 0 0,
       co_end_time = Some (utc 2024 6 1 23 0 0), co_duration_hours = 15\<rparr>,
    \<lparr>time_entries =
       [\<lparr>entry_id = 1, user_id = 7, start_time = utc 2024 6 1 8 0 0,
         end_time = Some (utc 2024 6 1 23 0 0), start_timezone = []\<rparr>],
     next_id = 2\<rparr>)"
proof -
  let ?e = "\<lparr>entry_id = 1, user_id = 7, start_time = utc 2024 6 1 8 0 0, end_time = None,
        start_timezone = []\<rparr>"
  let ?db = "saturday_shift []"
  let ?t = "utc 2024 6 2 10 0 0"
  have 1: "req_method (post 7 []) = ''POST''" by (simp add: post_def)
  have 2: "current_user (post 7 []) = Some 7" by (simp add: post_def)
  have 3: "select_open 7 ?db = ?e # []"
    by (simp add: select_open_def saturday_shift_def shift_since_def)
  have 4: "start_timezone ?e = []" by simp
  have r: "round2 15 = 15" using round2_hundredths[of 1500] by simp
  from clock_out_empty_timezone[OF 1 2 3 4, of always_sunday ?t ?t]
  obtain r where "clock_out always_sunday (post 7 []) ?db ?t ?t =
           (sendJson 200 r,
            snd (update_end_time (capped_end (start_time ?e) ?t) (entry_id ?e) ?db))"
    by blast
  then have table: "snd (clock_out always_sunday (post 7 []) ?db ?t ?t) =
     \<lparr>time_entries =
       [\<lparr>entry_id = 1, user_id = 7, start_time = utc 2024 6 1 8 0 0,
         end_time = Some (utc 2024 6 1 23 0 0), start_timezone = []\<rparr>],
      next_id = 2\<rparr>"
    by (simp add: saturday_shift_def shift_since_def update_end_time_def Let_def capped_end_def
        max_shift_ms_def MAX_SHIFT_HOURS_def date_eval)
  have "clock_out always_sunday (post 7 []) ?db ?t ?t = close_entry ?e ?db ?t"
    by (simp add: clock_out_def post_def select_open_def saturday_shift_def shift_since_def isAuto_def)
  then have answer: "fst (clock_out always_sunday (post 7 []) ?db ?t ?t) =
     sendJson 200
      \<lparr>co_id = 1, co_start_time = utc 2024 6 1 8 0 0,
       co_end_time = Some (utc 2024 6 1 23 0 0), co_duration_hours = 15\<rparr>"
    by (simp add: close_entry_def saturday_shift_def shift_since_def update_end_time_def Let_def
        Date_of_def MAX_SHIFT_HOURS_def date_eval r)
  show ?thesis using answer table by (simp add: prod_eq_iff)
qed

subsection \<open>C10: the year total of a user without closed entries\<close>

text \<open>
  C10, as amended. Let a logged-in user read the status. If the table the read leaves
  behind, that is the table after the auto-timeout step, holds no closed entry of the
  user that starts in the current year, the answer has \<open>year_total_hours = 0\<close>: the
  \<^verbatim>\<open>SUM\<close> over no rows is NULL and \<^verbatim>\<open>COALESCE\<close> makes it zero. This is the case when
  the user has no closed entry starting in the year before the read and no open entry
  that has reached 15 hours; the read then writes nothing.
\<close>

theorem status_year_total_zero:
  assumes "req_method request = ''GET''"
    and "current_user request = Some uid"
    and "ys = TimeFromYear (getFullYear t_year)"
    and "ye = TimeFromYear (getFullYear t_year + 1)"
  shows "(filter (completed_in uid ys ye)
            (time_entries (snd (status request db now t_year))) = [] \<longrightarrow>
          (\<exists>w s. fst (status request db now t_year) =
             sendJson 200 \<lparr>is_working = w, current_session = s, year_total_hours = 0\<rparr>)) \<and>
         (filter (completed_in uid ys ye) (time_entries db) = [] \<and>
          (\<forall>e\<in>set (select_open uid db). now - start_time e < max_shift_ms) \<longrightarrow>
          snd (status request db now t_year) = db \<and>
          (\<exists>w s. fst (status request db now t_year) =
             sendJson 200 \<lparr>is_working = w, current_session = s, year_total_hours = 0\<rparr>))"
proof -
  have snd_eq: "snd (status request db now t_year) = snd (auto_timeout uid db now)"
    using assms(1,2) by (simp add: status_def Let_def split_beta)
  have fst_eq: "fst (status request db now t_year) =
      sendJson 200 \<lparr>is_working = fst (fst (auto_timeout uid db now)),
                    current_session = snd (fst (auto_timeout uid db now)),
                    year_total_hours = round2 (year_total_query uid ys ye (snd (auto_timeout uid db now)))\<rparr>"
    using assms by (simp add: status_def Let_def split_beta)
  have 1: "\<exists>w s. fst (status request db now t_year) =
             sendJson 200 \<lparr>is_working = w, current_session = s, year_total_hours = 0\<rparr>"
    if "filter (completed_in uid ys ye) (time_entries (snd (status request db now t_year))) = []"
    using that unfolding snd_eq fst_eq by (simp add: year_total_query_empty round2_zero)
  have 2: "snd (status request db now t_year) = db"
    if "\<forall>e\<in>set (select_open uid db). now - start_time e < max_shift_ms"
    unfolding snd_eq using auto_timeout_keeps[OF that] .
  show ?thesis using 1 2 by auto
qed

theorem status_year_total_zero_witness:
  "status (get 7) (shift_since (utc 2024 6 6 8 0 0) ''UTC'') (utc 2024 6 6 12 0 0) (utc 2024 6 6 12 0 0) =
     (sendJson 200
        \<lparr>is_working = True,
         current_session =
           Some \<lparr>cs_id = 1, cs_start_time = utc 2024 6 6 8 0 0, cs_timezone = ''UTC'',
                 cs_elapsed_seconds = 14400\<rparr>,
         year_total_hours = 0\<rparr>,
      shift_since (utc 2024 6 6 8 0 0) ''UTC'')"
proof -
  let ?db = "shift_since (utc 2024 6 6 8 0 0) ''UTC''"
  let ?t = "utc 2024 6 6 12 0 0"
  have 1: "req_method (get 7) = ''GET''" by (simp add: get_def)
  have 2: "current_user (get 7) = Some 7" by (simp add: get_def)
  have 3: "filter (completed_in 7 (TimeFromYear (getFullYear ?t)) (TimeFromYear (getFullYear ?t + 1)))
             (time_entries ?db) = []"
    by (simp add: shift_since_def completed_in_def)
  have 4: "\<forall>e\<in>set (select_open 7 ?db). ?t - start_time e < max_shift_ms"
    by (simp add: select_open_def shift_since_def max_shift_ms_def MAX_SHIFT_HOURS_def date_eval)
  from status_year_total_zero[OF 1 2 refl refl, where db = ?db and now = ?t] 3 4
  have a: "snd (status (get 7) ?db ?t ?t) = ?db"
    and b: "\<exists>w s. fst (status (get 7) ?db ?t ?t) =
             sendJson 200 \<lparr>is_working = w, current_session = s, year_total_hours = 0\<rparr>"
    by simp_all
  have f: "\<lfloor>14400 :: rat\<rfloor> = 14400" by linarith
  have c: "auto_timeout 7 ?db ?t =
      ((True, Some \<lparr>cs_id = 1, cs_start_time = utc 2024 6 6 8 0 0, cs_timezone = ''UTC'',
                 cs_elapsed_seconds = 14400\<rparr>), ?db)"
    by (simp add: auto_timeout_def select_open_def shift_since_def Let_def MAX_SHIFT_HOURS_def
        date_eval f)
  from b have "fst (status (get 7) ?db ?t ?t) =
      sendJson 200 \<lparr>is_working = True,
         current_session =
           Some \<lparr>cs_id = 1, cs_start_time = utc 2024 6 6 8 0 0, cs_timezone = ''UTC'',
                 cs_elapsed_seconds = 14400\<rparr>,
         year_total_hours = 0\<rparr>"
    by (auto simp: status_def get_def c Let_def)
  with a show ?thesis by (simp add: prod_eq_iff)
qed

text \<open>
  C10 as stated fails when the read itself closes an entry. User 7 has no closed
  entry, only the entry open since 2024-06-01T08:00:00Z; the status read at 23:59:00Z
  times it out and then counts it: \<open>year_total_hours = 15\<close>.
\<close>

theorem status_year_total_counterexample:
  "filter (completed_in 7 (TimeFromYear 2024) (TimeFromYear 2025))
     (time_entries (saturday_shift ''UTC'')) = [] \<and>
   getFullYear (utc 2024 6 1 23 59 0) = 2024 \<and>
   fst (status (get 7) (saturday_shift ''UTC'') (utc 2024 6 1 23 59 0) (utc 2024 6 1 23 59 0)) =
     sendJson 200 \<lparr>is_working = False, current_session = None, year_total_hours = 15\<rparr>"
proof -
  have y: "getFullYear (utc 2024 6 1 23 59 0) = 2024"
    by (simp add: getFullYear_def YearFromTime_def YearFromDay_def Day_def Let_def date_eval)
  have r: "round2 15 = 15" using round2_hundredths[of 1500] by simp
  have at: "auto_timeout 7 (saturday_shift ''UTC'') (utc 2024 6 1 23 59 0) =
      ((False, None),
       \<lparr>time_entries = [\<lparr>entry_id = 1, user_id = 7, start_time = utc 2024 6 1 8 0 0,
          end_time = Some (utc 2024 6 1 23 0 0), start_timezone = ''UTC''\<rparr>], next_id = 2\<rparr>)"
    by (simp add: auto_timeout_def select_open_def saturday_shift_def shift_since_def Let_def
        update_end_time_def MAX_SHIFT_HOURS_def date_eval)
  have q: "year_total_query 7 (TimeFromYear 2024) (TimeFromYear 2025)
      \<lparr>time_entries = [\<lparr>entry_id = 1, user_id = 7, start_time = utc 2024 6 1 8 0 0,
          end_time = Some (utc 2024 6 1 23 0 0), start_timezone = ''UTC''\<rparr>], next_id = 2\<rparr> = 15"
    by (simp add: year_total_query_def completed_in_def TimeFromYear_def date_eval
        epoch_hours_def sql_sum_simps coalesce_def)
  have s: "fst (status (get 7) (saturday_shift ''UTC'') (utc 2024 6 1 23 59 0) (utc 2024 6 1 23 59 0)) =
      sendJson 200 \<lparr>is_working = False, current_session = None,
        year_total_hours = round2 (year_total_query 7 (TimeFromYear 2024) (TimeFromYear 2025)
          \<lparr>time_entries = [\<lparr>entry_id = 1, user_id = 7, start_time = utc 2024 6 1 8 0 0,
             end_time = Some (utc 2024 6 1 23 0 0), start_timezone = ''UTC''\<rparr>], next_id = 2\<rparr>)\<rparr>"
    by (simp add: y status_def get_def at Let_def)
  have e: "filter (completed_in 7 (TimeFromYear 2024) (TimeFromYear 2025))
     (time_entries (saturday_shift ''UTC'')) = []"
    by (simp add: saturday_shift_def shift_since_def completed_in_def)
  show ?thesis unfolding s q r using e y by simp
qed

end
